theory Spec2Isabelle
  imports Main
begin

section \<open>Python values\<close>

text \<open>
  Every value that crosses the HTTP boundary is JSON: the body of a response as
  \<^verbatim>\<open>response.json()\<close> returns it, and the dict literal passed as
  \<^verbatim>\<open>json=customer_data\<close>. \<open>JNull\<close> is Python's \<^verbatim>\<open>None\<close>; an object is the
  association list of a dict, read with \<open>map_of\<close>.
\<close>

datatype json =
    JNull
  | JBool bool
  | JNum int
  | JStr string
  | JArr "json list"
  | JObj "(string \<times> json) list"

text \<open>
  The exceptions the program can meet. \<open>RequestException\<close> stands for the whole
  \<^verbatim>\<open>requests.RequestException\<close> hierarchy (transport errors, the error of
  \<^verbatim>\<open>raise_for_status()\<close>); \<open>ValidationError\<close> is pydantic's.
\<close>

datatype exn =
    RequestException string
  | ValueError string
  | KeyError string
  | AttributeError string
  | TypeError
  | ValidationError

fun is_request_exception :: "exn \<Rightarrow> bool" where
  "is_request_exception (RequestException m) = True"
| "is_request_exception e = False"

text \<open>Truth value testing: \<^verbatim>\<open>if x:\<close>, \<^verbatim>\<open>all([...])\<close>, \<^verbatim>\<open>x if xs else None\<close>.\<close>

fun truthy :: "json \<Rightarrow> bool" where
  "truthy JNull = False"
| "truthy (JBool b) = b"
| "truthy (JNum n) = (n \<noteq> 0)"
| "truthy (JStr s) = (s \<noteq> [])"
| "truthy (JArr xs) = (xs \<noteq> [])"
| "truthy (JObj kvs) = (kvs \<noteq> [])"

text \<open>\<^verbatim>\<open>d.get(k, default)\<close>: only a dict has the method.\<close>

fun py_get :: "json \<Rightarrow> string \<Rightarrow> json \<Rightarrow> exn + json" where
  "py_get (JObj kvs) k d = (case map_of kvs k of Some v \<Rightarrow> Inr v | None \<Rightarrow> Inr d)"
| "py_get j k d = Inl (AttributeError ''get'')"

text \<open>\<^verbatim>\<open>d[k]\<close> with a string key \<open>k\<close>.\<close>

fun py_getitem :: "json \<Rightarrow> string \<Rightarrow> exn + json" where
  "py_getitem (JObj kvs) k = (case map_of kvs k of Some v \<Rightarrow> Inr v | None \<Rightarrow> Inl (KeyError k))"
| "py_getitem j k = Inl TypeError"

text \<open>
  \<^verbatim>\<open>xs[0]\<close>, evaluated only where \<open>xs\<close> is truthy: the first element of a list, the
  first character of a string, \<^verbatim>\<open>KeyError: 0\<close> on a dict (its keys are strings),
  \<^verbatim>\<open>TypeError\<close> on anything else.
\<close>

fun py_item0 :: "json \<Rightarrow> exn + json" where
  "py_item0 (JArr (x # xs)) = Inr x"
| "py_item0 (JStr (c # cs)) = Inr (JStr [c])"
| "py_item0 (JObj kvs) = Inl (KeyError ''0'')"
| "py_item0 j = Inl TypeError"

text \<open>\<^verbatim>\<open>for x in xs\<close>: the elements of a list, the keys of a dict, the characters of a string.\<close>

fun py_iter :: "json \<Rightarrow> exn + json list" where
  "py_iter (JArr xs) = Inr xs"
| "py_iter (JObj kvs) = Inr (map (\<lambda>kv. JStr (fst kv)) kvs)"
| "py_iter (JStr s) = Inr (map (\<lambda>c. JStr [c]) s)"
| "py_iter j = Inl TypeError"

text \<open>
  \<^verbatim>\<open>str.upper()\<close> on the ASCII letters; every other byte is kept (the country
  codes of the source data are ASCII).
\<close>

definition upper_char :: "char \<Rightarrow> char" where
  "upper_char c =
     (let n = (of_char c :: nat) in if 97 \<le> n \<and> n \<le> 122 then char_of (n - 32) else c)"

definition upper :: "string \<Rightarrow> string" where
  "upper s = map upper_char s"

section \<open>models.py\<close>

record AdminPanelZrContact =
  uStID :: "string option"
  zrNummer :: string
  firma :: string
  strasse :: string
  postleitzahl :: string
  stadt :: string
  land :: string
  adresstyp :: string

text \<open>
  \<^verbatim>\<open>AdminPanelUser\<close> has the fields of \<^verbatim>\<open>AdminPanelZrContact\<close> and four more.
\<close>

record AdminPanelUser = AdminPanelZrContact +
  vorname :: string
  name :: string
  eMailadresse :: string
  entraID :: string

text \<open>\<^verbatim>\<open>Union[AdminPanelUser, AdminPanelZrContact]\<close>\<close>

datatype contact = User AdminPanelUser | Zr AdminPanelZrContact

text \<open>The attributes both classes have.\<close>

fun common :: "contact \<Rightarrow> AdminPanelZrContact" where
  "common (User u) =
     \<lparr>uStID = uStID u, zrNummer = zrNummer u, firma = firma u, strasse = strasse u,
      postleitzahl = postleitzahl u, stadt = stadt u, land = land u, adresstyp = adresstyp u\<rparr>"
| "common (Zr z) = z"

text \<open>
  \<^verbatim>\<open>contact.vorname\<close>, \<^verbatim>\<open>contact.name\<close>, \<^verbatim>\<open>contact.entraID\<close>: an
  \<^verbatim>\<open>AdminPanelZrContact\<close> has no such attribute.
\<close>

fun attr_vorname :: "contact \<Rightarrow> exn + json" where
  "attr_vorname (User u) = Inr (JStr (vorname u))"
| "attr_vorname (Zr z) = Inl (AttributeError ''vorname'')"

fun attr_name :: "contact \<Rightarrow> exn + json" where
  "attr_name (User u) = Inr (JStr (name u))"
| "attr_name (Zr z) = Inl (AttributeError ''name'')"

fun attr_entraID :: "contact \<Rightarrow> exn + json" where
  "attr_entraID (User u) = Inr (JStr (entraID u))"
| "attr_entraID (Zr z) = Inl (AttributeError ''entraID'')"

text \<open>\<^verbatim>\<open>getattr(contact, "eMailadresse", None)\<close>\<close>

fun getattr_eMailadresse :: "contact \<Rightarrow> json" where
  "getattr_eMailadresse (User u) = JStr (eMailadresse u)"
| "getattr_eMailadresse (Zr z) = JNull"

section \<open>The outside world\<close>

text \<open>
  A request names its endpoint instead of spelling the URL: the base URLs are
  configuration, and the customer id interpolated into the PATCH URL is kept as the
  JSON value it is. The headers are the same for every request of a client and are
  left out.
\<close>

datatype http_method = GET | POST | PATCH

datatype endpoint =
    Admin_list_contact_gs
  | Admin_list_gs_adresstyp
  | Shopware_oauth_token
  | Shopware_customer
  | Shopware_customer_id json
  | Shopware_customer_group
  | Spotmarkt_country

record request =
  meth :: http_method
  url :: endpoint
  params :: "(string \<times> string) list"
  body :: "json option"

text \<open>
  The remote systems and the random source are a parameter of the model. \<open>http\<close> is
  \<^verbatim>\<open>requests.get/post/patch\<close> followed by \<^verbatim>\<open>raise_for_status()\<close> and, for a GET,
  \<^verbatim>\<open>response.json()\<close>: it answers with the parsed body or raises, and may change the
  remote state \<open>'w\<close>. \<open>uuid4\<close> is \<^verbatim>\<open>str(uuid4())\<close>.
\<close>

record 'w outside =
  http :: "request \<Rightarrow> 'w \<Rightarrow> (exn + json) \<times> 'w"
  uuid4 :: "'w \<Rightarrow> string \<times> 'w"

text \<open>The messages of the two loggers, one constructor for each format string.\<close>

datatype log_msg =
    Starting_user_synchronization
  | Processing_users nat
  | Updated_existing_user string
  | Created_new_user string
  | Failed_to_process_user string exn
  | Synchronization_completed nat nat nat nat
  | Synchronization_failed exn
  | Starting_ZR_customer_synchronization
  | Processing_ZR_contacts nat
  | Updated_existing_ZR_customer string
  | Created_new_ZR_customer string
  | Failed_to_process_ZR_customer string exn
  | ZR_synchronization_completed nat nat nat nat
  | ZR_synchronization_failed exn
  | Successfully_authenticated
  | Failed_to_authenticate exn
  | Failed_to_search_customer_by_entra_id string exn
  | Failed_to_search_customer_by_number string exn
  | Failed_to_get_customer_group_ID exn
  | Failed_to_get_country_ID string exn
  | Successfully_created bool string
  | Failed_to_create bool string exn
  | Successfully_updated bool string
  | Failed_to_update bool string exn
  | Successfully_fetched_contacts nat
  | Failed_to_fetch_contacts exn
  | Failed_to_parse_contacts_data exn
  | Successfully_fetched_ZR_contacts nat
  | Failed_to_fetch_ZR_contacts exn
  | Failed_to_parse_ZR_contacts_data exn
  | Initializing_sync_service
  | Sync_completed_successfully nat nat
  | ZR_Sync_completed_successfully nat nat
  | Sync_failed exn

datatype log_level = INFO | ERROR

text \<open>
  The state a run threads through: the remote state, the requests sent so far and
  the log lines written so far.
\<close>

record 'w state =
  world :: 'w
  sent :: "request list"
  logged :: "(log_level \<times> log_msg) list"

definition log_info :: "log_msg \<Rightarrow> 'w state \<Rightarrow> 'w state" where
  "log_info m s = s\<lparr>logged := logged s @ [(INFO, m)]\<rparr>"

definition log_error :: "log_msg \<Rightarrow> 'w state \<Rightarrow> 'w state" where
  "log_error m s = s\<lparr>logged := logged s @ [(ERROR, m)]\<rparr>"

definition send :: "'w outside \<Rightarrow> request \<Rightarrow> 'w state \<Rightarrow> (exn + json) \<times> 'w state" where
  "send env r s =
     (case http env r (world s) of
        (res, w) \<Rightarrow> (res, s\<lparr>world := w, sent := sent s @ [r]\<rparr>))"

definition fresh_uuid :: "'w outside \<Rightarrow> 'w state \<Rightarrow> string \<times> 'w state" where
  "fresh_uuid env s = (case uuid4 env (world s) of (u, w) \<Rightarrow> (u, s\<lparr>world := w\<rparr>))"

section \<open>shopware\_client.py\<close>

text \<open>
  \<^verbatim>\<open>customers = data.get("data", [])\<close> and
  \<^verbatim>\<open>return customers[0] if customers else None\<close>, the two lines both lookups end with.
\<close>

definition first_customer :: "json \<Rightarrow> exn + json" where
  "first_customer data =
     (case py_get data ''data'' (JArr []) of
        Inl e \<Rightarrow> Inl e
      | Inr customers \<Rightarrow> if truthy customers then py_item0 customers else Inr JNull)"

text \<open>
  In both lookups \<^verbatim>\<open>except requests.RequestException\<close> logs and raises again; any
  other exception leaves the method unlogged.
\<close>

definition get_customer_by_custom_field_entraid ::
  "'w outside \<Rightarrow> string \<Rightarrow> 'w state \<Rightarrow> (exn + json) \<times> 'w state" where
  "get_customer_by_custom_field_entraid env identifier s =
     (case send env \<lparr>meth = GET, url = Shopware_customer,
                      params = [(''filter[customFields.custom_identifier_user_entraid_]'', identifier)],
                      body = None\<rparr> s of
        (Inl e, s1) \<Rightarrow>
          (Inl e, if is_request_exception e
                  then log_error (Failed_to_search_customer_by_entra_id identifier e) s1 else s1)
      | (Inr data, s1) \<Rightarrow> (first_customer data, s1))"

definition get_customer_by_customer_number ::
  "'w outside \<Rightarrow> string \<Rightarrow> 'w state \<Rightarrow> (exn + json) \<times> 'w state" where
  "get_customer_by_customer_number env customer_number s =
     (case send env \<lparr>meth = GET, url = Shopware_customer,
                      params = [(''filter[customerNumber]'', customer_number)],
                      body = None\<rparr> s of
        (Inl e, s1) \<Rightarrow>
          (Inl e, if is_request_exception e
                  then log_error (Failed_to_search_customer_by_number customer_number e) s1 else s1)
      | (Inr data, s1) \<Rightarrow> (first_customer data, s1))"

text \<open>
  The loop of \<^verbatim>\<open>_get_customer_group_id\<close>: \<open>Some r\<close> when the loop body returns or
  raises \<open>r\<close>, \<open>None\<close> when the loop runs to its end.
\<close>

fun find_group :: "json list \<Rightarrow> string \<Rightarrow> (exn + json) option" where
  "find_group [] group_name = None"
| "find_group (g # gs) group_name =
     (case py_get g ''attributes'' (JObj []) of
        Inl e \<Rightarrow> Some (Inl e)
      | Inr a \<Rightarrow>
          (case py_get a ''name'' JNull of
             Inl e \<Rightarrow> Some (Inl e)
           | Inr n \<Rightarrow> if n = JStr group_name then Some (py_getitem g ''id'')
                      else find_group gs group_name))"

text \<open>
  \<^verbatim>\<open>_get_customer_group_id\<close> and \<^verbatim>\<open>_get_country_id\<close> (an Isabelle name cannot
  start with an underscore) turn a \<^verbatim>\<open>RequestException\<close> into the result
  \<^verbatim>\<open>None\<close>; any other exception is raised.
\<close>

definition get_customer_group_id ::
  "'w outside \<Rightarrow> string \<Rightarrow> 'w state \<Rightarrow> (exn + json) \<times> 'w state" where
  "get_customer_group_id env group_name s =
     (case send env \<lparr>meth = GET, url = Shopware_customer_group, params = [], body = None\<rparr> s of
        (Inl e, s1) \<Rightarrow>
          (if is_request_exception e
           then (Inr JNull, log_error (Failed_to_get_customer_group_ID e) s1)
           else (Inl e, s1))
      | (Inr data, s1) \<Rightarrow>
          (case py_get data ''data'' (JArr []) of
             Inl e \<Rightarrow> (Inl e, s1)
           | Inr groups \<Rightarrow>
               (case py_iter groups of
                  Inl e \<Rightarrow> (Inl e, s1)
                | Inr gs \<Rightarrow>
                    (case find_group gs group_name of
                       Some r \<Rightarrow> (r, s1)
                     | None \<Rightarrow>
                         (if truthy groups
                          then (case py_item0 groups of
                                  Inl e \<Rightarrow> Inl e
                                | Inr g \<Rightarrow> py_getitem g ''id'')
                          else Inr JNull, s1)))))"

definition get_country_id ::
  "'w outside \<Rightarrow> string \<Rightarrow> 'w state \<Rightarrow> (exn + json) \<times> 'w state" where
  "get_country_id env iso_code s =
     (case send env \<lparr>meth = GET, url = Spotmarkt_country,
                      params = [(''filter[iso]'', upper iso_code)], body = None\<rparr> s of
        (Inl e, s1) \<Rightarrow>
          (if is_request_exception e
           then (Inr JNull, log_error (Failed_to_get_country_ID iso_code e) s1)
           else (Inl e, s1))
      | (Inr data, s1) \<Rightarrow>
          (case py_get data ''data'' (JArr []) of
             Inl e \<Rightarrow> (Inl e, s1)
           | Inr countries \<Rightarrow>
               (if truthy countries
                then (case py_item0 countries of
                        Inl e \<Rightarrow> Inl e
                      | Inr c \<Rightarrow> py_get c ''id'' JNull)
                else Inr JNull, s1)))"

definition salutation_id :: string where
  "salutation_id = ''0194f5c3188270cebd82c273d4142f1a''"

definition sales_channel_id :: string where
  "sales_channel_id = ''019523bfc9e77764a3373ddc1bafdb18''"

definition language_id :: string where
  "language_id = ''0194f5c317e673168b59b25c7f5514cc''"

definition payment_method_id :: string where
  "payment_method_id = ''0197a6f28afe77af91a0c5e23c4c4633''"

text \<open>\<^verbatim>\<open>[contact.uStID] if contact.uStID else []\<close>\<close>

definition vatIds :: "contact \<Rightarrow> json" where
  "vatIds c =
     (case uStID (common c) of
        None \<Rightarrow> JArr []
      | Some v \<Rightarrow> if v \<noteq> [] then JArr [JStr v] else JArr [])"

text \<open>
  The dict literal \<^verbatim>\<open>customer_data\<close> of \<^verbatim>\<open>create_customer_generic\<close>. Its values
  are evaluated in the order they are written; the first attribute the contact
  does not have raises.
\<close>

definition create_customer_data ::
  "contact \<Rightarrow> bool \<Rightarrow> json \<Rightarrow> json \<Rightarrow> json \<Rightarrow> exn + json" where
  "create_customer_data c is_zr_contact country_id customer_group_id default_address_id =
     (case (if is_zr_contact then Inr JNull else attr_vorname c) of
        Inl e \<Rightarrow> Inl e
      | Inr first_name \<Rightarrow>
     (case (if is_zr_contact then Inr JNull else attr_name c) of
        Inl e \<Rightarrow> Inl e
      | Inr last_name \<Rightarrow>
     (case (if \<not> is_zr_contact then attr_entraID c else Inr JNull) of
        Inl e \<Rightarrow> Inl e
      | Inr entra \<Rightarrow>
          Inr (JObj
            [(''email'', if is_zr_contact
                         then JStr (''zr'' @ zrNummer (common c) @ ''@einrichtungspartnerring.com'')
                         else getattr_eMailadresse c),
             (''salutationId'', JStr salutation_id),
             (''firstName'', first_name),
             (''lastName'', last_name),
             (''customerNumber'', JStr (zrNummer (common c))),
             (''company'', JStr (firma (common c) @ '' ('' @ zrNummer (common c) @ '')'')),
             (''vatIds'', vatIds c),
             (''groupId'', customer_group_id),
             (''salesChannelId'', JStr sales_channel_id),
             (''accountType'', JStr ''business''),
             (''languageId'', JStr language_id),
             (''defaultBillingAddressId'', default_address_id),
             (''defaultShippingAddressId'', default_address_id),
             (''defaultPaymentMethodId'', JStr payment_method_id),
             (''addresses'', JArr [JObj
                [(''id'', default_address_id),
                 (''firstName'', first_name),
                 (''lastName'', last_name),
                 (''street'', JStr (strasse (common c))),
                 (''zipcode'', JStr (postleitzahl (common c))),
                 (''city'', JStr (stadt (common c))),
                 (''countryId'', country_id),
                 (''company'', JStr (firma (common c)))]]),
             (''customFields'', JObj [(''custom_identifier_user_entraid_'', entra)])]))))"

definition create_customer_generic ::
  "'w outside \<Rightarrow> contact \<Rightarrow> bool \<Rightarrow> 'w state \<Rightarrow> (exn + unit) \<times> 'w state" where
  "create_customer_generic env c is_zr_contact s =
     (case get_country_id env (land (common c)) s of
        (Inl e, s1) \<Rightarrow> (Inl e, s1)
      | (Inr country_id, s1) \<Rightarrow>
     (case get_customer_group_id env (if is_zr_contact then ''ZR-Kunden'' else ''User-Kunden'') s1 of
        (Inl e, s2) \<Rightarrow> (Inl e, s2)
      | (Inr customer_group_id, s2) \<Rightarrow>
          if \<not> (truthy (JStr salutation_id) \<and> truthy (JStr sales_channel_id)
                \<and> truthy customer_group_id)
          then (Inl (ValueError ''Failed to get required Shopware IDs''), s2)
          else
            (case fresh_uuid env s2 of
               (u, s3) \<Rightarrow>
                 (case create_customer_data c is_zr_contact country_id customer_group_id
                         (JStr (filter (\<lambda>ch. ch \<noteq> CHR ''-'') u)) of
                    Inl e \<Rightarrow> (Inl e, s3)
                  | Inr customer_data \<Rightarrow>
                      (case send env \<lparr>meth = POST, url = Shopware_customer, params = [],
                                       body = Some customer_data\<rparr> s3 of
                         (Inl e, s4) \<Rightarrow>
                           (Inl e, if is_request_exception e
                                   then log_error (Failed_to_create is_zr_contact
                                                     (zrNummer (common c)) e) s4
                                   else s4)
                       | (Inr r, s4) \<Rightarrow>
                           (Inr (), log_info (Successfully_created is_zr_contact
                                                (zrNummer (common c))) s4))))))"

definition create_customer :: "'w outside \<Rightarrow> AdminPanelUser \<Rightarrow> 'w state \<Rightarrow> (exn + unit) \<times> 'w state" where
  "create_customer env admin_user s = create_customer_generic env (User admin_user) False s"

definition create_zr_customer ::
  "'w outside \<Rightarrow> AdminPanelZrContact \<Rightarrow> 'w state \<Rightarrow> (exn + unit) \<times> 'w state" where
  "create_zr_customer env zr_contact s = create_customer_generic env (Zr zr_contact) True s"

text \<open>The dict literal \<^verbatim>\<open>customer_data\<close> of \<^verbatim>\<open>update_customer_generic\<close>.\<close>

definition update_customer_data ::
  "contact \<Rightarrow> bool \<Rightarrow> json \<Rightarrow> json \<Rightarrow> json \<Rightarrow> exn + json" where
  "update_customer_data c is_zr_contact country_id customer_group_id default_address_id =
     (case (if is_zr_contact then Inr JNull else attr_vorname c) of
        Inl e \<Rightarrow> Inl e
      | Inr first_name \<Rightarrow>
     (case (if is_zr_contact then Inr JNull else attr_name c) of
        Inl e \<Rightarrow> Inl e
      | Inr last_name \<Rightarrow>
          Inr (JObj
            [(''email'', if is_zr_contact
                         then JStr (''zr'' @ zrNummer (common c) @ ''@einrichtungspartnerring.com'')
                         else getattr_eMailadresse c),
             (''salutationId'', JStr salutation_id),
             (''firstName'', first_name),
             (''lastName'', last_name),
             (''customerNumber'', JStr (zrNummer (common c))),
             (''company'', JStr (firma (common c) @ '' ('' @ zrNummer (common c) @ '')'')),
             (''vatIds'', vatIds c),
             (''groupId'', customer_group_id),
             (''salesChannelId'', JStr sales_channel_id),
             (''accountType'', JStr ''business''),
             (''languageId'', JStr language_id),
             (''defaultBillingAddressId'', default_address_id),
             (''defaultShippingAddressId'', default_address_id),
             (''defaultPaymentMethodId'', JStr payment_method_id),
             (''addresses'', JArr [JObj
                [(''id'', default_address_id),
                 (''firstName'', first_name),
                 (''lastName'', last_name),
                 (''street'', JStr (strasse (common c))),
                 (''zipcode'', JStr (postleitzahl (common c))),
                 (''city'', JStr (stadt (common c))),
                 (''countryId'', country_id),
                 (''company'', JStr (firma (common c)))]])])))"

definition update_customer_generic ::
  "'w outside \<Rightarrow> contact \<Rightarrow> bool \<Rightarrow> json \<Rightarrow> 'w state \<Rightarrow> (exn + unit) \<times> 'w state" where
  "update_customer_generic env c is_zr_contact existing_customer s =
     (case py_getitem existing_customer ''id'' of
        Inl e \<Rightarrow> (Inl e, s)
      | Inr customer_id \<Rightarrow>
     (case py_get existing_customer ''attributes'' (JObj []) of
        Inl e \<Rightarrow> (Inl e, s)
      | Inr attributes \<Rightarrow>
     (case py_get attributes ''defaultBillingAddressId'' JNull of
        Inl e \<Rightarrow> (Inl e, s)
      | Inr default_address_id \<Rightarrow>
     (case get_customer_group_id env (if is_zr_contact then ''ZR-Kunden'' else ''User-Kunden'') s of
        (Inl e, s1) \<Rightarrow> (Inl e, s1)
      | (Inr customer_group_id, s1) \<Rightarrow>
     (case get_country_id env (land (common c)) s1 of
        (Inl e, s2) \<Rightarrow> (Inl e, s2)
      | (Inr country_id, s2) \<Rightarrow>
          (case update_customer_data c is_zr_contact country_id customer_group_id
                  default_address_id of
             Inl e \<Rightarrow> (Inl e, s2)
           | Inr customer_data \<Rightarrow>
               (case send env \<lparr>meth = PATCH, url = Shopware_customer_id customer_id, params = [],
                                body = Some customer_data\<rparr> s2 of
                  (Inl e, s3) \<Rightarrow>
                    (Inl e, if is_request_exception e
                            then log_error (Failed_to_update is_zr_contact
                                              (zrNummer (common c)) e) s3
                            else s3)
                | (Inr r, s3) \<Rightarrow>
                    (Inr (), log_info (Successfully_updated is_zr_contact
                                         (zrNummer (common c))) s3))))))))"

definition update_customer ::
  "'w outside \<Rightarrow> AdminPanelUser \<Rightarrow> json \<Rightarrow> 'w state \<Rightarrow> (exn + unit) \<times> 'w state" where
  "update_customer env admin_user existing_customer s =
     update_customer_generic env (User admin_user) False existing_customer s"

definition update_zr_customer ::
  "'w outside \<Rightarrow> AdminPanelZrContact \<Rightarrow> json \<Rightarrow> 'w state \<Rightarrow> (exn + unit) \<times> 'w state" where
  "update_zr_customer env zr_contact existing_customer s =
     update_customer_generic env (Zr zr_contact) True existing_customer s"

section \<open>admin\_panel\_client.py\<close>

text \<open>
  \<^verbatim>\<open>AdminPanelUser(**contact)\<close> and \<^verbatim>\<open>AdminPanelZrContact(**contact)\<close>: pydantic
  takes the declared fields from the dict, ignores the others, and raises
  \<^verbatim>\<open>ValidationError\<close> when a \<^verbatim>\<open>str\<close> field is missing or not a string;
  \<^verbatim>\<open>uStID\<close> may be missing or null.
\<close>

definition str_field :: "(string \<times> json) list \<Rightarrow> string \<Rightarrow> string option" where
  "str_field kvs k = (case map_of kvs k of Some (JStr v) \<Rightarrow> Some v | _ \<Rightarrow> None)"

definition opt_str_field :: "(string \<times> json) list \<Rightarrow> string \<Rightarrow> string option option" where
  "opt_str_field kvs k =
     (case map_of kvs k of
        None \<Rightarrow> Some None
      | Some JNull \<Rightarrow> Some None
      | Some (JStr v) \<Rightarrow> Some (Some v)
      | _ \<Rightarrow> None)"

fun new_AdminPanelZrContact :: "json \<Rightarrow> exn + AdminPanelZrContact" where
  "new_AdminPanelZrContact (JObj kvs) =
     (case (opt_str_field kvs ''uStID'', str_field kvs ''zrNummer'', str_field kvs ''firma'',
            str_field kvs ''strasse'', str_field kvs ''postleitzahl'', str_field kvs ''stadt'',
            str_field kvs ''land'', str_field kvs ''adresstyp'') of
        (Some u, Some z, Some f, Some st, Some p, Some sd, Some l, Some a) \<Rightarrow>
          Inr \<lparr>uStID = u, zrNummer = z, firma = f, strasse = st, postleitzahl = p, stadt = sd,
               land = l, adresstyp = a\<rparr>
      | _ \<Rightarrow> Inl ValidationError)"
| "new_AdminPanelZrContact j = Inl TypeError"

fun new_AdminPanelUser :: "json \<Rightarrow> exn + AdminPanelUser" where
  "new_AdminPanelUser (JObj kvs) =
     (case (new_AdminPanelZrContact (JObj kvs), str_field kvs ''vorname'', str_field kvs ''name'',
            str_field kvs ''eMailadresse'', str_field kvs ''entraID'') of
        (Inr z, Some v, Some n, Some e, Some i) \<Rightarrow>
          Inr \<lparr>uStID = uStID z, zrNummer = zrNummer z, firma = firma z, strasse = strasse z,
               postleitzahl = postleitzahl z, stadt = stadt z, land = land z,
               adresstyp = adresstyp z, vorname = v, name = n, eMailadresse = e, entraID = i\<rparr>
      | _ \<Rightarrow> Inl ValidationError)"
| "new_AdminPanelUser j = Inl TypeError"

text \<open>
  \<^verbatim>\<open>contact.get(k1) and contact.get(k2) and ...\<close>, as a truth value: the keys are
  read from left to right until one is falsy.
\<close>

fun all_get :: "json \<Rightarrow> string list \<Rightarrow> exn + bool" where
  "all_get c [] = Inr True"
| "all_get c (k # ks) =
     (case py_get c k JNull of
        Inl e \<Rightarrow> Inl e
      | Inr v \<Rightarrow> if truthy v then all_get c ks else Inr False)"

definition mandatory :: "string list" where
  "mandatory = [''adresstyp'', ''eMailadresse'', ''vorname'', ''name'', ''entraID'', ''firma'',
                ''zrNummer'', ''strasse'', ''postleitzahl'', ''stadt'', ''land'']"

text \<open>The list comprehension of \<^verbatim>\<open>get_all_contacts\<close>.\<close>

fun contacts_of :: "json list \<Rightarrow> exn + AdminPanelUser list" where
  "contacts_of [] = Inr []"
| "contacts_of (c # cs) =
     (case all_get c mandatory of
        Inl e \<Rightarrow> Inl e
      | Inr keep \<Rightarrow>
          if keep
          then (case new_AdminPanelUser c of
                  Inl e \<Rightarrow> Inl e
                | Inr u \<Rightarrow> (case contacts_of cs of Inl e \<Rightarrow> Inl e | Inr us \<Rightarrow> Inr (u # us)))
          else contacts_of cs)"

text \<open>
  \<^verbatim>\<open>get_all_contacts\<close>: \<^verbatim>\<open>except requests.RequestException\<close> and
  \<^verbatim>\<open>except Exception\<close> both log and raise again. The last assignment before the
  \<^verbatim>\<open>return\<close> (under the comment \<^verbatim>\<open># MOCK TODO - FLZ\<close>) keeps one e-mail address.
\<close>

definition get_all_contacts :: "'w outside \<Rightarrow> 'w state \<Rightarrow> (exn + AdminPanelUser list) \<times> 'w state" where
  "get_all_contacts env s =
     (case send env \<lparr>meth = GET, url = Admin_list_contact_gs, params = [], body = None\<rparr> s of
        (Inl e, s1) \<Rightarrow>
          (Inl e, log_error (if is_request_exception e then Failed_to_fetch_contacts e
                             else Failed_to_parse_contacts_data e) s1)
      | (Inr contacts_data, s1) \<Rightarrow>
          (case py_iter contacts_data of
             Inl e \<Rightarrow> (Inl e, log_error (Failed_to_parse_contacts_data e) s1)
           | Inr cs \<Rightarrow>
               (case contacts_of cs of
                  Inl e \<Rightarrow> (Inl e, log_error (Failed_to_parse_contacts_data e) s1)
                | Inr contacts \<Rightarrow>
                    (Inr (filter (\<lambda>contact. eMailadresse contact = ''thomas.kauer@kauer.ch'')
                            contacts),
                     log_info (Successfully_fetched_contacts (length contacts)) s1))))"

text \<open>The list comprehension of \<^verbatim>\<open>get_all_zr_contacts\<close>.\<close>

fun zr_contacts_of :: "json list \<Rightarrow> exn + AdminPanelZrContact list" where
  "zr_contacts_of [] = Inr []"
| "zr_contacts_of (c # cs) =
     (case py_get c ''zrNummer'' JNull of
        Inl e \<Rightarrow> Inl e
      | Inr n \<Rightarrow>
          if n \<in> set [JStr ''112212'', JStr ''112213'', JStr ''112214'']
          then (case new_AdminPanelZrContact c of
                  Inl e \<Rightarrow> Inl e
                | Inr z \<Rightarrow> (case zr_contacts_of cs of Inl e \<Rightarrow> Inl e | Inr zs \<Rightarrow> Inr (z # zs)))
          else zr_contacts_of cs)"

definition get_all_zr_contacts ::
  "'w outside \<Rightarrow> 'w state \<Rightarrow> (exn + AdminPanelZrContact list) \<times> 'w state" where
  "get_all_zr_contacts env s =
     (case send env \<lparr>meth = GET, url = Admin_list_gs_adresstyp, params = [], body = None\<rparr> s of
        (Inl e, s1) \<Rightarrow>
          (Inl e, log_error (if is_request_exception e then Failed_to_fetch_ZR_contacts e
                             else Failed_to_parse_ZR_contacts_data e) s1)
      | (Inr zr_contacts_data, s1) \<Rightarrow>
          (case py_iter zr_contacts_data of
             Inl e \<Rightarrow> (Inl e, log_error (Failed_to_parse_ZR_contacts_data e) s1)
           | Inr cs \<Rightarrow>
               (case zr_contacts_of cs of
                  Inl e \<Rightarrow> (Inl e, log_error (Failed_to_parse_ZR_contacts_data e) s1)
                | Inr zr_contacts \<Rightarrow>
                    (Inr zr_contacts,
                     log_info (Successfully_fetched_ZR_contacts (length zr_contacts)) s1))))"

section \<open>sync\_service.py\<close>

text \<open>
  The counters \<^verbatim>\<open>updated_users\<close>, \<^verbatim>\<open>created_users\<close>, \<^verbatim>\<open>failed_users\<close> of a pass.
\<close>

type_synonym counters = "nat \<times> nat \<times> nat"

text \<open>The body of the \<^verbatim>\<open>for\<close> loop of \<^verbatim>\<open>sync_users\<close>, with its \<^verbatim>\<open>try\<close>.\<close>

fun sync_user :: "'w outside \<Rightarrow> AdminPanelUser \<Rightarrow> counters \<times> 'w state \<Rightarrow> counters \<times> 'w state" where
  "sync_user env user ((updated_users, created_users, failed_users), s) =
     (case get_customer_by_custom_field_entraid env (entraID user) s of
        (Inl e, s1) \<Rightarrow>
          ((updated_users, created_users, failed_users + 1),
           log_error (Failed_to_process_user (eMailadresse user) e) s1)
      | (Inr existing_customer, s1) \<Rightarrow>
          if truthy existing_customer
          then (case update_customer env user existing_customer s1 of
                  (Inl e, s2) \<Rightarrow>
                    ((updated_users, created_users, failed_users + 1),
                     log_error (Failed_to_process_user (eMailadresse user) e) s2)
                | (Inr r, s2) \<Rightarrow>
                    ((updated_users + 1, created_users, failed_users),
                     log_info (Updated_existing_user (eMailadresse user)) s2))
          else (case create_customer env user s1 of
                  (Inl e, s2) \<Rightarrow>
                    ((updated_users, created_users, failed_users + 1),
                     log_error (Failed_to_process_user (eMailadresse user) e) s2)
                | (Inr r, s2) \<Rightarrow>
                    ((updated_users, created_users + 1, failed_users),
                     log_info (Created_new_user (eMailadresse user)) s2)))"

fun sync_users_loop ::
  "'w outside \<Rightarrow> AdminPanelUser list \<Rightarrow> counters \<times> 'w state \<Rightarrow> counters \<times> 'w state" where
  "sync_users_loop env [] cs = cs"
| "sync_users_loop env (user # admin_users) cs =
     sync_users_loop env admin_users (sync_user env user cs)"

definition sync_users :: "'w outside \<Rightarrow> 'w state \<Rightarrow> (exn + nat \<times> nat \<times> nat) \<times> 'w state" where
  "sync_users env s =
     (case get_all_contacts env (log_info Starting_user_synchronization s) of
        (Inl e, s1) \<Rightarrow> (Inl e, log_error (Synchronization_failed e) s1)
      | (Inr admin_users, s1) \<Rightarrow>
          (case sync_users_loop env admin_users
                  ((0, 0, 0), log_info (Processing_users (length admin_users)) s1) of
             ((updated_users, created_users, failed_users), s2) \<Rightarrow>
               (Inr (length admin_users, updated_users, created_users),
                log_info (Synchronization_completed (length admin_users) updated_users
                            created_users failed_users) s2)))"

text \<open>The body of the \<^verbatim>\<open>for\<close> loop of \<^verbatim>\<open>sync_zr_customers\<close>, with its \<^verbatim>\<open>try\<close>.\<close>

fun sync_zr_contact ::
  "'w outside \<Rightarrow> AdminPanelZrContact \<Rightarrow> counters \<times> 'w state \<Rightarrow> counters \<times> 'w state" where
  "sync_zr_contact env zr_contact ((updated_contacts, created_contacts, failed_contacts), s) =
     (case get_customer_by_customer_number env (zrNummer zr_contact) s of
        (Inl e, s1) \<Rightarrow>
          ((updated_contacts, created_contacts, failed_contacts + 1),
           log_error (Failed_to_process_ZR_customer (zrNummer zr_contact) e) s1)
      | (Inr existing_customer, s1) \<Rightarrow>
          if truthy existing_customer
          then (case update_zr_customer env zr_contact existing_customer s1 of
                  (Inl e, s2) \<Rightarrow>
                    ((updated_contacts, created_contacts, failed_contacts + 1),
                     log_error (Failed_to_process_ZR_customer (zrNummer zr_contact) e) s2)
                | (Inr r, s2) \<Rightarrow>
                    ((updated_contacts + 1, created_contacts, failed_contacts),
                     log_info (Updated_existing_ZR_customer (zrNummer zr_contact)) s2))
          else (case create_zr_customer env zr_contact s1 of
                  (Inl e, s2) \<Rightarrow>
                    ((updated_contacts, created_contacts, failed_contacts + 1),
                     log_error (Failed_to_process_ZR_customer (zrNummer zr_contact) e) s2)
                | (Inr r, s2) \<Rightarrow>
                    ((updated_contacts, created_contacts + 1, failed_contacts),
                     log_info (Created_new_ZR_customer (zrNummer zr_contact)) s2)))"

fun sync_zr_customers_loop ::
  "'w outside \<Rightarrow> AdminPanelZrContact list \<Rightarrow> counters \<times> 'w state \<Rightarrow> counters \<times> 'w state" where
  "sync_zr_customers_loop env [] cs = cs"
| "sync_zr_customers_loop env (zr_contact # zr_contacts) cs =
     sync_zr_customers_loop env zr_contacts (sync_zr_contact env zr_contact cs)"

definition sync_zr_customers :: "'w outside \<Rightarrow> 'w state \<Rightarrow> (exn + nat \<times> nat \<times> nat) \<times> 'w state" where
  "sync_zr_customers env s =
     (case get_all_zr_contacts env (log_info Starting_ZR_customer_synchronization s) of
        (Inl e, s1) \<Rightarrow> (Inl e, log_error (ZR_synchronization_failed e) s1)
      | (Inr zr_contacts, s1) \<Rightarrow>
          (case sync_zr_customers_loop env zr_contacts
                  ((0, 0, 0), log_info (Processing_ZR_contacts (length zr_contacts)) s1) of
             ((updated_contacts, created_contacts, failed_contacts), s2) \<Rightarrow>
               (Inr (length zr_contacts, updated_contacts, created_contacts),
                log_info (ZR_synchronization_completed (length zr_contacts) updated_contacts
                            created_contacts failed_contacts) s2)))"

section \<open>main.py\<close>

text \<open>
  The constructor of \<^verbatim>\<open>ShopwareClient\<close> authenticates. The token is only read by
  the headers, so the model keeps the request and drops the token.
\<close>

definition authenticate :: "'w outside \<Rightarrow> string \<Rightarrow> string \<Rightarrow> 'w state \<Rightarrow> (exn + json) \<times> 'w state" where
  "authenticate env client_id client_secret s =
     (case send env \<lparr>meth = POST, url = Shopware_oauth_token, params = [],
                      body = Some (JObj [(''grant_type'', JStr ''client_credentials''),
                                         (''client_id'', JStr client_id),
                                         (''client_secret'', JStr client_secret)])\<rparr> s of
        (Inl e, s1) \<Rightarrow>
          (Inl e, if is_request_exception e then log_error (Failed_to_authenticate e) s1 else s1)
      | (Inr token_data, s1) \<Rightarrow>
          (case py_getitem token_data ''access_token'' of
             Inl e \<Rightarrow> (Inl e, s1)
           | Inr access_token \<Rightarrow> (Inr access_token, log_info Successfully_authenticated s1)))"

text \<open>
  \<^verbatim>\<open>run_sync\<close>: the exit status \<open>Some 1\<close> is \<^verbatim>\<open>sys.exit(1)\<close>, \<open>None\<close> is a normal
  return.
\<close>

definition run_sync :: "'w outside \<Rightarrow> string \<Rightarrow> string \<Rightarrow> 'w state \<Rightarrow> nat option \<times> 'w state" where
  "run_sync env client_id client_secret s =
     (case authenticate env client_id client_secret (log_info Initializing_sync_service s) of
        (Inl e, s1) \<Rightarrow> (Some 1, log_error (Sync_failed e) s1)
      | (Inr token, s1) \<Rightarrow>
     (case sync_users env s1 of
        (Inl e, s2) \<Rightarrow> (Some 1, log_error (Sync_failed e) s2)
      | (Inr (total_users, existing, created), s2) \<Rightarrow>
     (case sync_zr_customers env (log_info (Sync_completed_successfully created existing) s2) of
        (Inl e, s3) \<Rightarrow> (Some 1, log_error (Sync_failed e) s3)
      | (Inr (total_zr, existing_zr, created_zr), s3) \<Rightarrow>
          (None, log_info (ZR_Sync_completed_successfully created_zr existing_zr) s3))))"

section \<open>Observing a run\<close>

text \<open>
  \<open>sent\<close> only grows, so the requests a piece of the program issued are the ones
  the state after it has beyond the state before it.
\<close>

definition issued :: "'w state \<Rightarrow> 'w state \<Rightarrow> request list" where
  "issued s s' = drop (length (sent s)) (sent s')"

text \<open>The request of each lookup method, and the test for a customer lookup.\<close>

definition lookup_entraid :: "string \<Rightarrow> request" where
  "lookup_entraid i = \<lparr>meth = GET, url = Shopware_customer,
       params = [(''filter[customFields.custom_identifier_user_entraid_]'', i)], body = None\<rparr>"

definition lookup_number :: "string \<Rightarrow> request" where
  "lookup_number n = \<lparr>meth = GET, url = Shopware_customer,
       params = [(''filter[customerNumber]'', n)], body = None\<rparr>"

definition is_lookup :: "request \<Rightarrow> bool" where
  "is_lookup q = (meth q = GET \<and> url q = Shopware_customer)"

text \<open>The request that fetches the list of ZR contacts.\<close>

definition zr_fetch :: request where
  "zr_fetch = \<lparr>meth = GET, url = Admin_list_gs_adresstyp, params = [], body = None\<rparr>"

section \<open>A destination to run against\<close>

text \<open>
  Modelled from the spec: the two remote systems, of which the repository holds only
  the clients. The contact source answers each list request with a fixed body. The
  destination directory keeps its customers in the order they were created, the
  identifier of a customer being its position; it answers a lookup with the customers
  whose customer number or external identity custom field equals the filter value, a
  group request with all groups, a country request with the countries of that ISO
  code, stores the payload of a create as the fields of a new customer, and applies
  the payload of an update to the customer the URL names.
\<close>

record remote =
  contact_list :: json
  zr_contact_list :: json
  customer_groups :: "(string \<times> json) list"
  country_list :: "(string \<times> json) list"
  customers :: "(string \<times> json) list list"
  uuids :: nat

definition customer_entity :: "nat \<times> (string \<times> json) list \<Rightarrow> json" where
  "customer_entity c = JObj [(''id'', JNum (int (fst c))), (''attributes'', JObj (snd c))]"

definition group_entity :: "string \<times> json \<Rightarrow> json" where
  "group_entity g = JObj [(''id'', snd g), (''attributes'', JObj [(''name'', JStr (fst g))])]"

definition country_entity :: "string \<times> json \<Rightarrow> json" where
  "country_entity c = JObj [(''id'', snd c), (''attributes'', JObj [(''iso'', JStr (fst c))])]"

definition matches :: "string \<times> string \<Rightarrow> (string \<times> json) list \<Rightarrow> bool" where
  "matches p attrs =
     (if fst p = ''filter[customerNumber]''
      then map_of attrs ''customerNumber'' = Some (JStr (snd p))
      else if fst p = ''filter[customFields.custom_identifier_user_entraid_]''
      then (case map_of attrs ''customFields'' of
              Some (JObj cf) \<Rightarrow> map_of cf ''custom_identifier_user_entraid_'' = Some (JStr (snd p))
            | _ \<Rightarrow> False)
      else True)"

text \<open>
  Modelled from the spec: what an update does to the fields of a customer.
  \<open>overwrite\<close> is the reading of the spec (4.2, side effects), a full overwrite where
  a field the payload omits is cleared. \<open>merge\<close> is the other reading, the one HTTP
  gives to PATCH: the fields the payload has are changed and the others are kept.
\<close>

definition overwrite :: "(string \<times> json) list \<Rightarrow> (string \<times> json) list \<Rightarrow> (string \<times> json) list" where
  "overwrite payload attrs = payload"

definition merge :: "(string \<times> json) list \<Rightarrow> (string \<times> json) list \<Rightarrow> (string \<times> json) list" where
  "merge payload attrs = payload @ filter (\<lambda>kv. fst kv \<notin> fst ` set payload) attrs"

definition shop_http ::
  "((string \<times> json) list \<Rightarrow> (string \<times> json) list \<Rightarrow> (string \<times> json) list) \<Rightarrow>
   request \<Rightarrow> remote \<Rightarrow> (exn + json) \<times> remote" where
  "shop_http patch r w =
     (case (meth r, url r, body r) of
        (GET, Admin_list_contact_gs, b) \<Rightarrow> (Inr (contact_list w), w)
      | (GET, Admin_list_gs_adresstyp, b) \<Rightarrow> (Inr (zr_contact_list w), w)
      | (POST, Shopware_oauth_token, b) \<Rightarrow> (Inr (JObj [(''access_token'', JStr ''token'')]), w)
      | (GET, Shopware_customer_group, b) \<Rightarrow>
          (Inr (JObj [(''data'', JArr (map group_entity (customer_groups w)))]), w)
      | (GET, Spotmarkt_country, b) \<Rightarrow>
          (Inr (JObj [(''data'', JArr (map country_entity
                  (filter (\<lambda>c. \<forall>p\<in>set (params r). fst p = ''filter[iso]'' \<longrightarrow> fst c = snd p)
                     (country_list w))))]), w)
      | (GET, Shopware_customer, b) \<Rightarrow>
          (Inr (JObj [(''data'', JArr (map customer_entity
                  (filter (\<lambda>c. \<forall>p\<in>set (params r). matches p (snd c))
                     (enumerate 0 (customers w)))))]), w)
      | (POST, Shopware_customer, Some (JObj payload)) \<Rightarrow>
          (Inr JNull, w\<lparr>customers := customers w @ [payload]\<rparr>)
      | (PATCH, Shopware_customer_id (JNum i), Some (JObj payload)) \<Rightarrow>
          (if 0 \<le> i \<and> nat i < length (customers w)
           then (Inr JNull,
                 w\<lparr>customers := (customers w)[nat i := patch payload (customers w ! nat i)]\<rparr>)
           else (Inl (RequestException ''404''), w))
      | _ \<Rightarrow> (Inl (RequestException ''400''), w))"

definition shop_uuid4 :: "remote \<Rightarrow> string \<times> remote" where
  "shop_uuid4 w = (''uuid-'' @ replicate (uuids w) (CHR ''0''), w\<lparr>uuids := uuids w + 1\<rparr>)"

definition shop ::
  "((string \<times> json) list \<Rightarrow> (string \<times> json) list \<Rightarrow> (string \<times> json) list) \<Rightarrow> remote outside" where
  "shop patch = \<lparr>http = shop_http patch, uuid4 = shop_uuid4\<rparr>"

definition start :: "remote \<Rightarrow> remote state" where
  "start w = \<lparr>world = w, sent = [], logged = []\<rparr>"

section \<open>Sample data\<close>

definition sample_zr :: AdminPanelZrContact where
  "sample_zr =
     \<lparr>uStID = None, zrNummer = ''112212'', firma = ''Muster GmbH'', strasse = ''Weg 1'',
      postleitzahl = ''12345'', stadt = ''Bonn'', land = ''de'',
      adresstyp = ''Rechnungsanschrift''\<rparr>"

definition sample_user :: AdminPanelUser where
  "sample_user =
     \<lparr>uStID = Some ''DE1'', zrNummer = ''200001'', firma = ''Kauer AG'', strasse = ''Gasse 2'',
      postleitzahl = ''8000'', stadt = ''Chur'', land = ''ch'',
      adresstyp = ''Rechnungsanschrift;Lieferanschrift'', vorname = ''Thomas'', name = ''Kauer'',
      eMailadresse = ''thomas.kauer@kauer.ch'', entraID = ''entra-1''\<rparr>"

definition sample_remote :: remote where
  "sample_remote =
     \<lparr>contact_list = JArr [], zr_contact_list = JArr [],
      customer_groups = [(''User-Kunden'', JStr ''g-user''), (''ZR-Kunden'', JStr ''g-zr'')],
      country_list = [(''DE'', JStr ''c-de''), (''CH'', JStr ''c-ch'')],
      customers = [], uuids = 0\<rparr>"

text \<open>The sample contacts as the contact source sends them.\<close>

definition sample_zr_json :: json where
  "sample_zr_json =
     JObj [(''uStID'', JNull), (''zrNummer'', JStr ''112212''), (''firma'', JStr ''Muster GmbH''),
           (''strasse'', JStr ''Weg 1''), (''postleitzahl'', JStr ''12345''),
           (''stadt'', JStr ''Bonn''), (''land'', JStr ''de''),
           (''adresstyp'', JStr ''Rechnungsanschrift'')]"

definition sample_user_json :: json where
  "sample_user_json =
     JObj [(''vorname'', JStr ''Thomas''), (''name'', JStr ''Kauer''),
           (''eMailadresse'', JStr ''thomas.kauer@kauer.ch''), (''uStID'', JStr ''DE1''),
           (''zrNummer'', JStr ''200001''), (''firma'', JStr ''Kauer AG''),
           (''strasse'', JStr ''Gasse 2''), (''postleitzahl'', JStr ''8000''),
           (''stadt'', JStr ''Chur''), (''land'', JStr ''ch''),
           (''adresstyp'', JStr ''Rechnungsanschrift;Lieferanschrift''),
           (''entraID'', JStr ''entra-1'')]"

text \<open>
  A complete individual record with another e-mail address, and the three ZR
  contacts of the allow-list, the second one with a country code the destination
  does not know.
\<close>

definition other_user_json :: json where
  "other_user_json =
     JObj [(''vorname'', JStr ''Anna''), (''name'', JStr ''Beispiel''),
           (''eMailadresse'', JStr ''anna@example.org''), (''uStID'', JNull),
           (''zrNummer'', JStr ''200002''), (''firma'', JStr ''Beispiel KG''),
           (''strasse'', JStr ''Allee 3''), (''postleitzahl'', JStr ''50667''),
           (''stadt'', JStr ''Koeln''), (''land'', JStr ''de''),
           (''adresstyp'', JStr ''Lieferanschrift''), (''entraID'', JStr ''entra-2'')]"

definition three_zr_json :: json where
  "three_zr_json =
     JArr [sample_zr_json,
           JObj [(''zrNummer'', JStr ''112213''), (''firma'', JStr ''Zwei OHG''),
                 (''strasse'', JStr ''Ring 5''), (''postleitzahl'', JStr ''1010''),
                 (''stadt'', JStr ''Wien''), (''land'', JStr ''xx''),
                 (''adresstyp'', JStr ''Rechnungsanschrift;Lieferanschrift'')],
           JObj [(''zrNummer'', JStr ''112214''), (''firma'', JStr ''Drei AG''),
                 (''strasse'', JStr ''Quai 7''), (''postleitzahl'', JStr ''3000''),
                 (''stadt'', JStr ''Bern''), (''land'', JStr ''ch''),
                 (''adresstyp'', JStr ''Lieferanschrift'')]]"

text \<open>A source with the sample individual and the sample ZR contact, and no customer yet.\<close>

definition source_remote :: remote where
  "source_remote =
     sample_remote\<lparr>contact_list := JArr [sample_user_json],
                   zr_contact_list := JArr [sample_zr_json]\<rparr>"

section \<open>The passes against the sample destination, in closed form\<close>

text \<open>
  What follows describes, as functions of the remote state alone, what the program
  does when it runs against \<open>shop merge\<close>. The position of the first item of a
  list that satisfies a test:
\<close>

fun first_match :: "('a \<Rightarrow> bool) \<Rightarrow> 'a list \<Rightarrow> nat option" where
  "first_match P [] = None"
| "first_match P (x # xs) = (if P x then Some 0 else map_option Suc (first_match P xs))"

text \<open>The group id and the country id the client gets from the reference data.\<close>

definition group_id_of :: "remote \<Rightarrow> string \<Rightarrow> json" where
  "group_id_of w group_name =
     (case find (\<lambda>g. fst g = group_name) (customer_groups w) of
        Some g \<Rightarrow> snd g
      | None \<Rightarrow> (case customer_groups w of [] \<Rightarrow> JNull | g # gs \<Rightarrow> snd g))"

definition country_id_of :: "remote \<Rightarrow> string \<Rightarrow> json" where
  "country_id_of w iso_code =
     (case filter (\<lambda>c. fst c = upper iso_code) (country_list w) of
        [] \<Rightarrow> JNull
      | c # cs \<Rightarrow> snd c)"

text \<open>
  A pass hands an individual to the generic methods with \<^verbatim>\<open>is_zr_contact=False\<close> and
  a ZR contact with \<^verbatim>\<open>is_zr_contact=True\<close>, looks the first up by entraID and the
  second by zrNummer, and asks for the group of its kind.
\<close>

fun is_zr :: "contact \<Rightarrow> bool" where
  "is_zr (User u) = False"
| "is_zr (Zr z) = True"

fun key_of :: "contact \<Rightarrow> string \<times> string" where
  "key_of (User u) = (''filter[customFields.custom_identifier_user_entraid_]'', entraID u)"
| "key_of (Zr z) = (''filter[customerNumber]'', zrNummer z)"

fun group_of :: "contact \<Rightarrow> string" where
  "group_of (User u) = ''User-Kunden''"
| "group_of (Zr z) = ''ZR-Kunden''"

text \<open>
  The fields an update payload has, the payload of an update as a list of fields,
  and the one field a create payload has beyond them.
\<close>

definition payload_keys :: "string list" where
  "payload_keys =
     [''email'', ''salutationId'', ''firstName'', ''lastName'', ''customerNumber'', ''company'',
      ''vatIds'', ''groupId'', ''salesChannelId'', ''accountType'', ''languageId'',
      ''defaultBillingAddressId'', ''defaultShippingAddressId'', ''defaultPaymentMethodId'',
      ''addresses'']"

definition payload :: "contact \<Rightarrow> json \<Rightarrow> json \<Rightarrow> json \<Rightarrow> (string \<times> json) list" where
  "payload c country_id customer_group_id default_address_id =
     (case update_customer_data c (is_zr c) country_id customer_group_id default_address_id of
        Inr (JObj kvs) \<Rightarrow> kvs
      | _ \<Rightarrow> [])"

fun custom_fields :: "contact \<Rightarrow> string \<times> json" where
  "custom_fields (User u) =
     (''customFields'', JObj [(''custom_identifier_user_entraid_'', JStr (entraID u))])"
| "custom_fields (Zr z) = (''customFields'', JObj [(''custom_identifier_user_entraid_'', JNull)])"

definition billing_of :: "(string \<times> json) list \<Rightarrow> json" where
  "billing_of attrs =
     (case map_of attrs ''defaultBillingAddressId'' of Some v \<Rightarrow> v | None \<Rightarrow> JNull)"

definition rest_of :: "(string \<times> json) list \<Rightarrow> (string \<times> json) list" where
  "rest_of attrs = filter (\<lambda>kv. fst kv \<notin> set payload_keys) attrs"

text \<open>
  A step creates when it finds no customer and gets a group id; the remote state
  after the step of a contact.
\<close>

definition creates :: "contact \<Rightarrow> remote \<Rightarrow> bool" where
  "creates c w =
     (first_match (matches (key_of c)) (customers w) = None \<and> truthy (group_id_of w (group_of c)))"

definition wstep :: "contact \<Rightarrow> remote \<Rightarrow> remote" where
  "wstep c w =
     (case first_match (matches (key_of c)) (customers w) of
        Some i \<Rightarrow>
          w\<lparr>customers := (customers w)
               [i := merge (payload c (country_id_of w (land (common c)))
                              (group_id_of w (group_of c)) (billing_of (customers w ! i)))
                       (customers w ! i)]\<rparr>
      | None \<Rightarrow>
          if truthy (group_id_of w (group_of c))
          then w\<lparr>customers := customers w @
                   [payload c (country_id_of w (land (common c))) (group_id_of w (group_of c))
                      (JStr (filter (\<lambda>ch. ch \<noteq> CHR ''-'') (fst (shop_uuid4 w))))
                    @ [custom_fields c]],
                 uuids := uuids w + 1\<rparr>
          else w)"

text \<open>No step of the list creates, each taken in the state the steps before it leave.\<close>

fun quiet :: "contact list \<Rightarrow> remote \<Rightarrow> bool" where
  "quiet [] w = True"
| "quiet (c # cs) w = (\<not> creates c w \<and> quiet cs (wstep c w))"

text \<open>The contacts a run works through: the individuals, then the ZR contacts.\<close>

definition fetched_users :: "remote \<Rightarrow> AdminPanelUser list option" where
  "fetched_users w =
     (case py_iter (contact_list w) of
        Inl e \<Rightarrow> None
      | Inr cs \<Rightarrow>
          (case contacts_of cs of
             Inl e \<Rightarrow> None
           | Inr us \<Rightarrow> Some (filter (\<lambda>u. eMailadresse u = ''thomas.kauer@kauer.ch'') us)))"

definition fetched_zr :: "remote \<Rightarrow> AdminPanelZrContact list option" where
  "fetched_zr w =
     (case py_iter (zr_contact_list w) of
        Inl e \<Rightarrow> None
      | Inr cs \<Rightarrow> (case zr_contacts_of cs of Inl e \<Rightarrow> None | Inr zs \<Rightarrow> Some zs))"

definition records :: "remote \<Rightarrow> contact list" where
  "records w =
     (case fetched_users w of
        None \<Rightarrow> []
      | Some us \<Rightarrow> map User us @ (case fetched_zr w of None \<Rightarrow> [] | Some zs \<Rightarrow> map Zr zs))"

text \<open>A write request that creates a customer.\<close>

definition is_create :: "request \<Rightarrow> bool" where
  "is_create q = (meth q = POST \<and> url q = Shopware_customer)"

text \<open>What a lookup with the filter \<open>p\<close> answers.\<close>

definition found :: "remote \<Rightarrow> string \<times> string \<Rightarrow> json" where
  "found w p = (case first_match (matches p) (customers w) of
                  None \<Rightarrow> JNull
                | Some i \<Rightarrow> customer_entity (i, customers w ! i))"

text \<open>From \<open>s\<close> to \<open>s'\<close> requests were only added, and each of them satisfies \<open>P\<close>.\<close>

definition only_sends :: "(request \<Rightarrow> bool) \<Rightarrow> 'w state \<Rightarrow> 'w state \<Rightarrow> bool" where
  "only_sends P s s' = (\<exists>rs. sent s' = sent s @ rs \<and> (\<forall>q\<in>set rs. P q))"

text \<open>
  The customer number among the fields of a customer, and the order of the contacts
  of a run: no individual after a ZR contact.
\<close>

definition number_of :: "(string \<times> json) list \<Rightarrow> json option" where
  "number_of attrs = map_of attrs ''customerNumber''"

fun users_first :: "contact list \<Rightarrow> bool" where
  "users_first [] = True"
| "users_first (User u # cs) = users_first cs"
| "users_first (Zr z # cs) = (\<forall>c\<in>set cs. is_zr c)"

text \<open>
  The state \<open>b\<close> of a second run that has come as far as the first run had come
  in the state \<open>a\<close>, the first run having ended in \<open>F\<close>: every customer is as the
  first run left it, or as the first run had it at this point.
\<close>

definition second_run_at :: "remote \<Rightarrow> remote \<Rightarrow> remote \<Rightarrow> bool" where
  "second_run_at F a b \<longleftrightarrow>
     contact_list b = contact_list F \<and> zr_contact_list b = zr_contact_list F \<and>
     customer_groups b = customer_groups F \<and> country_list b = country_list F \<and>
     uuids b = uuids F \<and> length (customers b) = length (customers F) \<and>
     (\<forall>i<length (customers F).
        customers b ! i = customers F ! i \<or>
        (i < length (customers a) \<and> customers b ! i = customers a ! i))"

section \<open>What each method sends\<close>

lemma sent_log_info [simp]: "sent (log_info m s) = sent s"
  by (simp add: log_info_def)
lemma sent_log_error [simp]: "sent (log_error m s) = sent s"
  by (simp add: log_error_def)
lemma world_log_info [simp]: "world (log_info m s) = world s"
  by (simp add: log_info_def)
lemma world_log_error [simp]: "world (log_error m s) = world s"
  by (simp add: log_error_def)
lemma logged_log_info [simp]: "logged (log_info m s) = logged s @ [(INFO, m)]"
  by (simp add: log_info_def)
lemma logged_log_error [simp]: "logged (log_error m s) = logged s @ [(ERROR, m)]"
  by (simp add: log_error_def)

lemma issued_append: "sent s' = sent s @ rs \<Longrightarrow> issued s s' = rs"
  by (simp add: issued_def)

lemma send_sent: "send env r s = (x, s') \<Longrightarrow> sent s' = sent s @ [r]"
  by (auto simp: send_def split: prod.splits)

lemma get_customer_by_custom_field_entraid_sent:
  "get_customer_by_custom_field_entraid env i s = (x, s') \<Longrightarrow>
   sent s' = sent s @ [\<lparr>meth = GET, url = Shopware_customer,
       params = [(''filter[customFields.custom_identifier_user_entraid_]'', i)], body = None\<rparr>]"
  by (auto simp: get_customer_by_custom_field_entraid_def split: prod.splits sum.splits if_splits dest!: send_sent)

lemma get_customer_by_customer_number_sent:
  "get_customer_by_customer_number env n s = (x, s') \<Longrightarrow>
   sent s' = sent s @ [\<lparr>meth = GET, url = Shopware_customer,
       params = [(''filter[customerNumber]'', n)], body = None\<rparr>]"
  by (auto simp: get_customer_by_customer_number_def split: prod.splits sum.splits if_splits dest!: send_sent)

lemma get_customer_group_id_sent:
  "get_customer_group_id env g s = (x, s') \<Longrightarrow>
   sent s' = sent s @ [\<lparr>meth = GET, url = Shopware_customer_group, params = [], body = None\<rparr>]"
  by (auto simp: get_customer_group_id_def split: prod.splits sum.splits option.splits if_splits dest!: send_sent)

lemma get_country_id_sent:
  "get_country_id env iso_code s = (x, s') \<Longrightarrow>
   sent s' = sent s @ [\<lparr>meth = GET, url = Spotmarkt_country, params = [(''filter[iso]'', upper iso_code)], body = None\<rparr>]"
  by (auto simp: get_country_id_def split: prod.splits sum.splits option.splits if_splits dest!: send_sent)

text \<open>What update_customer_generic sends: two reference lookups and at most one PATCH.\<close>

lemma update_customer_generic_sent:
  assumes "update_customer_generic env c z ex s = (r, s')"
  shows "\<exists>rs. sent s' = sent s @ rs \<and>
     (\<forall>q\<in>set rs. (meth q = GET \<and> url q \<in> {Shopware_customer_group, Spotmarkt_country}) \<or>
        (\<exists>customer_id attributes aid gid cid dat.
           py_getitem ex ''id'' = Inr customer_id \<and>
           py_get ex ''attributes'' (JObj []) = Inr attributes \<and>
           py_get attributes ''defaultBillingAddressId'' JNull = Inr aid \<and>
           update_customer_data c z cid gid aid = Inr dat \<and>
           q = \<lparr>meth = PATCH, url = Shopware_customer_id customer_id, params = [], body = Some dat\<rparr>))"
  using assms
  apply (auto simp: update_customer_generic_def split: prod.splits sum.splits if_splits
      dest!: send_sent get_customer_group_id_sent get_country_id_sent)
  apply blast+
  done

lemma create_customer_generic_sent:
  assumes "create_customer_generic env c z s = (r, s')"
  shows "\<exists>rs. sent s' = sent s @ rs \<and>
     (\<forall>q\<in>set rs. (meth q = GET \<and> url q \<in> {Shopware_customer_group, Spotmarkt_country}) \<or>
        (\<exists>u gid cid dat.
           create_customer_data c z cid gid (JStr (filter (\<lambda>ch. ch \<noteq> CHR ''-'') u)) = Inr dat \<and>
           q = \<lparr>meth = POST, url = Shopware_customer, params = [], body = Some dat\<rparr>))"
  using assms
  apply (auto simp: create_customer_generic_def fresh_uuid_def split: prod.splits sum.splits if_splits
      dest!: send_sent get_customer_group_id_sent get_country_id_sent)
  apply blast+
  done

text \<open>The definitions a concrete run unfolds.\<close>

lemmas shop_defs = shop_def shop_http_def shop_uuid4_def start_def send_def matches_def
  customer_entity_def group_entity_def country_entity_def fresh_uuid_def merge_def overwrite_def
lemmas client_defs = get_customer_by_customer_number_def get_customer_by_custom_field_entraid_def
  first_customer_def create_zr_customer_def create_customer_def update_customer_def update_zr_customer_def
  create_customer_generic_def update_customer_generic_def get_country_id_def get_customer_group_id_def
  create_customer_data_def update_customer_data_def upper_def upper_char_def
  salutation_id_def sales_channel_id_def vatIds_def
lemmas sample_defs = sample_zr_def sample_user_def sample_remote_def

text \<open>The write request of an update and of a create.\<close>

lemma update_writes:
  assumes "update_customer_generic env c z ex s = (r, s')"
    and "q \<in> set (issued s s')" and "meth q \<noteq> GET"
  shows "\<exists>customer_id attributes aid gid cid dat.
           py_getitem ex ''id'' = Inr customer_id \<and>
           py_get ex ''attributes'' (JObj []) = Inr attributes \<and>
           py_get attributes ''defaultBillingAddressId'' JNull = Inr aid \<and>
           update_customer_data c z cid gid aid = Inr dat \<and>
           q = \<lparr>meth = PATCH, url = Shopware_customer_id customer_id, params = [], body = Some dat\<rparr>"
proof -
  from update_customer_generic_sent [OF assms(1)] obtain rs where rs: "sent s' = sent s @ rs"
    and all: "\<forall>q\<in>set rs. (meth q = GET \<and> url q \<in> {Shopware_customer_group, Spotmarkt_country}) \<or>
        (\<exists>customer_id attributes aid gid cid dat.
           py_getitem ex ''id'' = Inr customer_id \<and>
           py_get ex ''attributes'' (JObj []) = Inr attributes \<and>
           py_get attributes ''defaultBillingAddressId'' JNull = Inr aid \<and>
           update_customer_data c z cid gid aid = Inr dat \<and>
           q = \<lparr>meth = PATCH, url = Shopware_customer_id customer_id, params = [], body = Some dat\<rparr>)"
    by blast
  from rs assms(2) have "q \<in> set rs" by (simp add: issued_append)
  with all assms(3) show ?thesis by blast
qed

lemma create_writes:
  assumes "create_customer_generic env c z s = (r, s')"
    and "q \<in> set (issued s s')" and "meth q \<noteq> GET"
  shows "\<exists>u gid cid dat.
           create_customer_data c z cid gid (JStr (filter (\<lambda>ch. ch \<noteq> CHR ''-'') u)) = Inr dat \<and>
           q = \<lparr>meth = POST, url = Shopware_customer, params = [], body = Some dat\<rparr>"
proof -
  from create_customer_generic_sent [OF assms(1)] obtain rs where rs: "sent s' = sent s @ rs"
    and all: "\<forall>q\<in>set rs. (meth q = GET \<and> url q \<in> {Shopware_customer_group, Spotmarkt_country}) \<or>
        (\<exists>u gid cid dat.
           create_customer_data c z cid gid (JStr (filter (\<lambda>ch. ch \<noteq> CHR ''-'') u)) = Inr dat \<and>
           q = \<lparr>meth = POST, url = Shopware_customer, params = [], body = Some dat\<rparr>)"
    by blast
  from rs assms(2) have "q \<in> set rs" by (simp add: issued_append)
  with all assms(3) show ?thesis by blast
qed

text \<open>An update and a create that return normally have sent their write request.\<close>

lemma update_success_sends:
  assumes "update_customer_generic env c z ex s = (Inr r, s')"
  shows "\<exists>q\<in>set (issued s s'). meth q = PATCH"
  using assms
  by (auto simp: update_customer_generic_def issued_def split: prod.splits sum.splits if_splits
      dest!: send_sent get_customer_group_id_sent get_country_id_sent)

lemma create_success_sends:
  assumes "create_customer_generic env c z s = (Inr r, s')"
  shows "\<exists>q\<in>set (issued s s'). meth q = POST"
  using assms
  by (auto simp: create_customer_generic_def fresh_uuid_def issued_def
      split: prod.splits sum.splits if_splits
      dest!: send_sent get_customer_group_id_sent get_country_id_sent)

text \<open>Only a create reads the random source.\<close>

lemma send_uuid4 [simp]: "send (env\<lparr>uuid4 := f\<rparr>) = send env"
  by (simp add: send_def fun_eq_iff)

lemma get_customer_group_id_uuid4 [simp]:
  "get_customer_group_id (env\<lparr>uuid4 := f\<rparr>) = get_customer_group_id env"
  by (simp add: get_customer_group_id_def fun_eq_iff)

lemma get_country_id_uuid4 [simp]:
  "get_country_id (env\<lparr>uuid4 := f\<rparr>) = get_country_id env"
  by (simp add: get_country_id_def fun_eq_iff)

section \<open>The payloads\<close>

text \<open>
  C9. For every organization (ZR) contact, every write request of a create and of an
  update carries the e-mail address \<open>zr\<close> + zrNummer + \<open>@einrichtungspartnerring.com\<close>
  and null first and last names, in the customer object and in its address block. A
  create writes with POST only, an update with PATCH only. A create that returns
  normally has sent such a POST, and an update that returns normally has sent such a
  PATCH.
\<close>

theorem zr_payload_email_and_names:
  "(create_zr_customer env z s = (r, s') \<longrightarrow>
      (\<forall>q\<in>set (issued s s'). meth q \<noteq> GET \<longrightarrow>
         meth q = POST \<and>
         (\<exists>dat a. body q = Some (JObj dat) \<and>
            map_of dat ''email'' = Some (JStr (''zr'' @ zrNummer z @ ''@einrichtungspartnerring.com'')) \<and>
            map_of dat ''firstName'' = Some JNull \<and> map_of dat ''lastName'' = Some JNull \<and>
            map_of dat ''addresses'' = Some (JArr [JObj a]) \<and>
            map_of a ''firstName'' = Some JNull \<and> map_of a ''lastName'' = Some JNull)))
   \<and> (update_zr_customer env z ex t = (r', t') \<longrightarrow>
      (\<forall>q\<in>set (issued t t'). meth q \<noteq> GET \<longrightarrow>
         meth q = PATCH \<and>
         (\<exists>dat a. body q = Some (JObj dat) \<and>
            map_of dat ''email'' = Some (JStr (''zr'' @ zrNummer z @ ''@einrichtungspartnerring.com'')) \<and>
            map_of dat ''firstName'' = Some JNull \<and> map_of dat ''lastName'' = Some JNull \<and>
            map_of dat ''addresses'' = Some (JArr [JObj a]) \<and>
            map_of a ''firstName'' = Some JNull \<and> map_of a ''lastName'' = Some JNull)))
   \<and> (create_zr_customer env z s = (Inr ok, s') \<longrightarrow>
      (\<exists>q dat a. q \<in> set (issued s s') \<and> meth q = POST \<and> body q = Some (JObj dat) \<and>
            map_of dat ''email'' = Some (JStr (''zr'' @ zrNummer z @ ''@einrichtungspartnerring.com'')) \<and>
            map_of dat ''firstName'' = Some JNull \<and> map_of dat ''lastName'' = Some JNull \<and>
            map_of dat ''addresses'' = Some (JArr [JObj a]) \<and>
            map_of a ''firstName'' = Some JNull \<and> map_of a ''lastName'' = Some JNull))
   \<and> (update_zr_customer env z ex t = (Inr ok, t') \<longrightarrow>
      (\<exists>q dat a. q \<in> set (issued t t') \<and> meth q = PATCH \<and> body q = Some (JObj dat) \<and>
            map_of dat ''email'' = Some (JStr (''zr'' @ zrNummer z @ ''@einrichtungspartnerring.com'')) \<and>
            map_of dat ''firstName'' = Some JNull \<and> map_of dat ''lastName'' = Some JNull \<and>
            map_of dat ''addresses'' = Some (JArr [JObj a]) \<and>
            map_of a ''firstName'' = Some JNull \<and> map_of a ''lastName'' = Some JNull))"
proof -
  have C: "meth q = POST \<and>
         (\<exists>dat a. body q = Some (JObj dat) \<and>
            map_of dat ''email'' = Some (JStr (''zr'' @ zrNummer z @ ''@einrichtungspartnerring.com'')) \<and>
            map_of dat ''firstName'' = Some JNull \<and> map_of dat ''lastName'' = Some JNull \<and>
            map_of dat ''addresses'' = Some (JArr [JObj a]) \<and>
            map_of a ''firstName'' = Some JNull \<and> map_of a ''lastName'' = Some JNull)"
    if run: "create_zr_customer env z s = (x, s')" and q: "q \<in> set (issued s s')" "meth q \<noteq> GET"
    for x q
  proof -
    from create_writes [OF run [unfolded create_zr_customer_def] q] obtain u gid cid dat where
      "create_customer_data (Zr z) True cid gid (JStr (filter (\<lambda>ch. ch \<noteq> CHR ''-'') u)) = Inr dat"
      "q = \<lparr>meth = POST, url = Shopware_customer, params = [], body = Some dat\<rparr>"
      by blast
    then show ?thesis by (auto simp: create_customer_data_def)
  qed
  have U: "meth q = PATCH \<and>
         (\<exists>dat a. body q = Some (JObj dat) \<and>
            map_of dat ''email'' = Some (JStr (''zr'' @ zrNummer z @ ''@einrichtungspartnerring.com'')) \<and>
            map_of dat ''firstName'' = Some JNull \<and> map_of dat ''lastName'' = Some JNull \<and>
            map_of dat ''addresses'' = Some (JArr [JObj a]) \<and>
            map_of a ''firstName'' = Some JNull \<and> map_of a ''lastName'' = Some JNull)"
    if run: "update_zr_customer env z ex t = (x, t')" and q: "q \<in> set (issued t t')" "meth q \<noteq> GET"
    for x q
  proof -
    from update_writes [OF run [unfolded update_zr_customer_def] q] obtain customer_id aid gid cid dat where
      "update_customer_data (Zr z) True cid gid aid = Inr dat"
      "q = \<lparr>meth = PATCH, url = Shopware_customer_id customer_id, params = [], body = Some dat\<rparr>"
      by blast
    then show ?thesis by (auto simp: update_customer_data_def)
  qed
  have C': "\<exists>q dat a. q \<in> set (issued s s') \<and> meth q = POST \<and> body q = Some (JObj dat) \<and>
            map_of dat ''email'' = Some (JStr (''zr'' @ zrNummer z @ ''@einrichtungspartnerring.com'')) \<and>
            map_of dat ''firstName'' = Some JNull \<and> map_of dat ''lastName'' = Some JNull \<and>
            map_of dat ''addresses'' = Some (JArr [JObj a]) \<and>
            map_of a ''firstName'' = Some JNull \<and> map_of a ''lastName'' = Some JNull"
    if run: "create_zr_customer env z s = (Inr ok, s')"
  proof -
    from create_success_sends [OF run [unfolded create_zr_customer_def]]
    obtain q where q: "q \<in> set (issued s s')" "meth q = POST" by blast
    then have "meth q \<noteq> GET" by simp
    from C [OF run q(1) this] q show ?thesis by blast
  qed
  have U': "\<exists>q dat a. q \<in> set (issued t t') \<and> meth q = PATCH \<and> body q = Some (JObj dat) \<and>
            map_of dat ''email'' = Some (JStr (''zr'' @ zrNummer z @ ''@einrichtungspartnerring.com'')) \<and>
            map_of dat ''firstName'' = Some JNull \<and> map_of dat ''lastName'' = Some JNull \<and>
            map_of dat ''addresses'' = Some (JArr [JObj a]) \<and>
            map_of a ''firstName'' = Some JNull \<and> map_of a ''lastName'' = Some JNull"
    if run: "update_zr_customer env z ex t = (Inr ok, t')"
  proof -
    from update_success_sends [OF run [unfolded update_zr_customer_def]]
    obtain q where q: "q \<in> set (issued t t')" "meth q = PATCH" by blast
    then have "meth q \<noteq> GET" by simp
    from U [OF run q(1) this] q show ?thesis by blast
  qed
  from C U C' U' show ?thesis by blast
qed

theorem zr_payload_email_and_names_witness:
  "(\<exists>q dat a. q \<in> set (issued (start sample_remote)
                     (snd (create_zr_customer (shop merge) sample_zr (start sample_remote)))) \<and>
      meth q = POST \<and> body q = Some (JObj dat) \<and>
      map_of dat ''email'' = Some (JStr ''zr112212@einrichtungspartnerring.com'') \<and>
      map_of dat ''firstName'' = Some JNull \<and> map_of dat ''lastName'' = Some JNull \<and>
      map_of dat ''addresses'' = Some (JArr [JObj a]) \<and>
      map_of a ''firstName'' = Some JNull \<and> map_of a ''lastName'' = Some JNull)
   \<and> (\<exists>q dat a. q \<in> set (issued
                     (start (sample_remote\<lparr>customers := [[(''customerNumber'', JStr ''112212'')]]\<rparr>))
                     (snd (update_zr_customer (shop merge) sample_zr
                        (JObj [(''id'', JNum 0),
                               (''attributes'', JObj [(''customerNumber'', JStr ''112212'')])])
                        (start (sample_remote\<lparr>customers :=
                                  [[(''customerNumber'', JStr ''112212'')]]\<rparr>))))) \<and>
      meth q = PATCH \<and> body q = Some (JObj dat) \<and>
      map_of dat ''email'' = Some (JStr ''zr112212@einrichtungspartnerring.com'') \<and>
      map_of dat ''firstName'' = Some JNull \<and> map_of dat ''lastName'' = Some JNull \<and>
      map_of dat ''addresses'' = Some (JArr [JObj a]) \<and>
      map_of a ''firstName'' = Some JNull \<and> map_of a ''lastName'' = Some JNull)"
proof -
  let ?c = "create_zr_customer (shop merge) sample_zr (start sample_remote)"
  let ?t = "start (sample_remote\<lparr>customers := [[(''customerNumber'', JStr ''112212'')]]\<rparr>)"
  let ?ex = "JObj [(''id'', JNum 0), (''attributes'', JObj [(''customerNumber'', JStr ''112212'')])]"
  let ?u = "update_zr_customer (shop merge) sample_zr ?ex ?t"
  have "fst ?c = Inr ()" by (simp add: shop_defs client_defs sample_defs)
  then have c: "?c = (Inr (), snd ?c)" by (metis prod.collapse)
  have "fst ?u = Inr ()" by (simp add: shop_defs client_defs sample_defs)
  then have u: "?u = (Inr (), snd ?u)" by (metis prod.collapse)
  note T = zr_payload_email_and_names [of "shop merge" sample_zr]
  from T [THEN conjunct2, THEN conjunct2, THEN conjunct1, rule_format, OF c]
    T [THEN conjunct2, THEN conjunct2, THEN conjunct2, rule_format, OF u]
  show ?thesis by (simp add: sample_zr_def)
qed

text \<open>
  C10. For every contact and every existing destination customer, the payload of an
  update has no \<open>customFields\<close> key. The payload of a create has it: it holds the
  contact's entraID for an individual and null for a ZR contact.
\<close>

theorem update_payload_omits_customFields:
  "(update_customer_generic env c is_zr_contact ex s = (r, s') \<longrightarrow>
      (\<forall>q\<in>set (issued s s'). meth q \<noteq> GET \<longrightarrow>
         meth q = PATCH \<and> (\<exists>dat. body q = Some (JObj dat) \<and> map_of dat ''customFields'' = None)))
   \<and> (create_customer env u t = (r1, t1) \<longrightarrow>
      (\<forall>q\<in>set (issued t t1). meth q \<noteq> GET \<longrightarrow>
         meth q = POST \<and>
         (\<exists>dat. body q = Some (JObj dat) \<and>
            map_of dat ''customFields'' =
              Some (JObj [(''custom_identifier_user_entraid_'', JStr (entraID u))]))))
   \<and> (create_zr_customer env z t = (r2, t2) \<longrightarrow>
      (\<forall>q\<in>set (issued t t2). meth q \<noteq> GET \<longrightarrow>
         meth q = POST \<and>
         (\<exists>dat. body q = Some (JObj dat) \<and>
            map_of dat ''customFields'' =
              Some (JObj [(''custom_identifier_user_entraid_'', JNull)]))))"
proof (intro conjI; intro impI ballI)
  fix q assume "update_customer_generic env c is_zr_contact ex s = (r, s')"
    "q \<in> set (issued s s')" "meth q \<noteq> GET"
  from update_writes [OF this] obtain customer_id aid gid cid dat where
    "update_customer_data c is_zr_contact cid gid aid = Inr dat"
    "q = \<lparr>meth = PATCH, url = Shopware_customer_id customer_id, params = [], body = Some dat\<rparr>"
    by blast
  then show "meth q = PATCH \<and> (\<exists>dat. body q = Some (JObj dat) \<and> map_of dat ''customFields'' = None)"
    by (auto simp: update_customer_data_def split: sum.splits if_splits)
next
  fix q assume "create_customer env u t = (r1, t1)" "q \<in> set (issued t t1)" "meth q \<noteq> GET"
  from create_writes [OF this(1) [unfolded create_customer_def] this(2,3)] obtain v gid cid dat where
    "create_customer_data (User u) False cid gid (JStr (filter (\<lambda>ch. ch \<noteq> CHR ''-'') v)) = Inr dat"
    "q = \<lparr>meth = POST, url = Shopware_customer, params = [], body = Some dat\<rparr>"
    by blast
  then show "meth q = POST \<and>
         (\<exists>dat. body q = Some (JObj dat) \<and>
            map_of dat ''customFields'' =
              Some (JObj [(''custom_identifier_user_entraid_'', JStr (entraID u))]))"
    by (auto simp: create_customer_data_def)
next
  fix q assume "create_zr_customer env z t = (r2, t2)" "q \<in> set (issued t t2)" "meth q \<noteq> GET"
  from create_writes [OF this(1) [unfolded create_zr_customer_def] this(2,3)] obtain v gid cid dat where
    "create_customer_data (Zr z) True cid gid (JStr (filter (\<lambda>ch. ch \<noteq> CHR ''-'') v)) = Inr dat"
    "q = \<lparr>meth = POST, url = Shopware_customer, params = [], body = Some dat\<rparr>"
    by blast
  then show "meth q = POST \<and>
         (\<exists>dat. body q = Some (JObj dat) \<and>
            map_of dat ''customFields'' =
              Some (JObj [(''custom_identifier_user_entraid_'', JNull)]))"
    by (auto simp: create_customer_data_def)
qed


theorem update_payload_omits_customFields_witness:
  "\<exists>q dat. q \<in> set (issued (start sample_remote)
                 (snd (update_customer_generic (shop merge) (User sample_user) False
                    (JObj [(''id'', JNum 0)]) (start sample_remote)))) \<and>
      meth q = PATCH \<and> body q = Some (JObj dat) \<and> map_of dat ''customFields'' = None"
proof -
  let ?res = "update_customer_generic (shop merge) (User sample_user) False
                    (JObj [(''id'', JNum 0)]) (start sample_remote)"
  have "\<exists>q\<in>set (issued (start sample_remote) (snd ?res)). meth q = PATCH"
    by (simp add: shop_defs client_defs sample_defs issued_def)
  then obtain q where q: "q \<in> set (issued (start sample_remote) (snd ?res))" "meth q = PATCH" by blast
  have run: "?res = (fst ?res, snd ?res)" by simp
  have "meth q \<noteq> GET" using q by simp
  from update_payload_omits_customFields [THEN conjunct1, rule_format, OF run q(1) this]
  obtain dat where "body q = Some (JObj dat)" "map_of dat ''customFields'' = None"
    by blast
  with q show ?thesis by blast
qed

text \<open>
  C5, as the code has it. For every update of an existing destination customer, the
  address id of the payload (in the address block and in both default-address
  references) is what \<^verbatim>\<open>existing_customer.get("attributes", {}).get("defaultBillingAddressId")\<close>
  gives: the existing default billing address id, and null when there is none. The
  update does not depend on the random source, so it mints no id.
\<close>

theorem update_reuses_billing_address_id:
  "(update_customer_generic env c is_zr_contact ex s = (r, s') \<longrightarrow>
      (\<forall>q\<in>set (issued s s'). meth q \<noteq> GET \<longrightarrow>
         (\<exists>attributes aid dat a.
            py_get ex ''attributes'' (JObj []) = Inr attributes \<and>
            py_get attributes ''defaultBillingAddressId'' JNull = Inr aid \<and>
            body q = Some (JObj dat) \<and>
            map_of dat ''defaultBillingAddressId'' = Some aid \<and>
            map_of dat ''defaultShippingAddressId'' = Some aid \<and>
            map_of dat ''addresses'' = Some (JArr [JObj a]) \<and> map_of a ''id'' = Some aid)))
   \<and> update_customer_generic (env\<lparr>uuid4 := f\<rparr>) c is_zr_contact ex s =
       update_customer_generic env c is_zr_contact ex s"
proof (rule conjI; (intro impI ballI)?)
  fix q assume "update_customer_generic env c is_zr_contact ex s = (r, s')"
    "q \<in> set (issued s s')" "meth q \<noteq> GET"
  from update_writes [OF this] obtain customer_id attributes aid gid cid dat where
    "py_get ex ''attributes'' (JObj []) = Inr attributes"
    "py_get attributes ''defaultBillingAddressId'' JNull = Inr aid"
    "update_customer_data c is_zr_contact cid gid aid = Inr dat"
    "q = \<lparr>meth = PATCH, url = Shopware_customer_id customer_id, params = [], body = Some dat\<rparr>"
    by blast
  then show "\<exists>attributes aid dat a.
            py_get ex ''attributes'' (JObj []) = Inr attributes \<and>
            py_get attributes ''defaultBillingAddressId'' JNull = Inr aid \<and>
            body q = Some (JObj dat) \<and>
            map_of dat ''defaultBillingAddressId'' = Some aid \<and>
            map_of dat ''defaultShippingAddressId'' = Some aid \<and>
            map_of dat ''addresses'' = Some (JArr [JObj a]) \<and> map_of a ''id'' = Some aid"
    by (auto simp: update_customer_data_def split: sum.splits if_splits)
next
  show "update_customer_generic (env\<lparr>uuid4 := f\<rparr>) c is_zr_contact ex s =
       update_customer_generic env c is_zr_contact ex s"
    by (simp add: update_customer_generic_def cong: sum.case_cong prod.case_cong if_cong)
qed



theorem update_reuses_billing_address_id_witness:
  "\<exists>q dat. q \<in> set (issued (start sample_remote)
                 (snd (update_zr_customer (shop merge) sample_zr
                    (JObj [(''id'', JNum 0),
                           (''attributes'', JObj [(''defaultBillingAddressId'', JStr ''a1''),
                                                  (''defaultShippingAddressId'', JStr ''s1'')])])
                    (start sample_remote)))) \<and>
      meth q = PATCH \<and> body q = Some (JObj dat) \<and>
      map_of dat ''defaultBillingAddressId'' = Some (JStr ''a1'') \<and>
      map_of dat ''defaultShippingAddressId'' = Some (JStr ''a1'')"
proof -
  let ?ex = "JObj [(''id'', JNum 0),
                   (''attributes'', JObj [(''defaultBillingAddressId'', JStr ''a1''),
                                          (''defaultShippingAddressId'', JStr ''s1'')])]"
  let ?res = "update_customer_generic (shop merge) (Zr sample_zr) True ?ex (start sample_remote)"
  have "\<exists>q\<in>set (issued (start sample_remote) (snd ?res)). meth q = PATCH"
    by (simp add: shop_defs client_defs sample_defs issued_def)
  then obtain q where q: "q \<in> set (issued (start sample_remote) (snd ?res))" "meth q = PATCH" by blast
  have run: "?res = (fst ?res, snd ?res)" by simp
  have "meth q \<noteq> GET" using q by simp
  from update_reuses_billing_address_id [THEN conjunct1, rule_format, OF run q(1) this]
  obtain attributes aid dat where
    "py_get ?ex ''attributes'' (JObj []) = Inr attributes"
    "py_get attributes ''defaultBillingAddressId'' JNull = Inr aid"
    "body q = Some (JObj dat)"
    "map_of dat ''defaultBillingAddressId'' = Some aid"
    "map_of dat ''defaultShippingAddressId'' = Some aid"
    by blast
  with q show ?thesis unfolding update_zr_customer_def by auto
qed

text \<open>
  C5, as stated, fails: an existing customer with a default shipping address id and
  no default billing address id is updated with a null address id, not with the
  shipping id.
\<close>

theorem update_ignores_shipping_address_id:
  "\<exists>s' dat a.
     sync_zr_contact (shop merge) sample_zr
       ((0, 0, 0), start (sample_remote\<lparr>customers :=
           [[(''customerNumber'', JStr ''112212''), (''defaultShippingAddressId'', JStr ''s1'')]]\<rparr>))
       = ((1, 0, 0), s') \<and>
     last (sent s') = \<lparr>meth = PATCH, url = Shopware_customer_id (JNum 0), params = [],
                        body = Some (JObj dat)\<rparr> \<and>
     map_of dat ''defaultBillingAddressId'' = Some JNull \<and>
     map_of dat ''defaultShippingAddressId'' = Some JNull \<and>
     map_of dat ''addresses'' = Some (JArr [JObj a]) \<and> map_of a ''id'' = Some JNull"
  by (simp add: shop_defs client_defs sample_defs)

text \<open>
  C4, as the code has it. For every contact, whatever its address-type string, the
  payload of a create and of an update points both the default billing and the
  default shipping slot at the one address of the payload. The address-type string
  is not read: a contact that differs in it alone is written the same way.
\<close>

theorem default_addresses_ignore_adresstyp:
  "(create_customer_generic env c is_zr_contact s = (r, s') \<longrightarrow>
      (\<forall>q\<in>set (issued s s'). meth q \<noteq> GET \<longrightarrow>
         (\<exists>aid dat a. body q = Some (JObj dat) \<and>
            map_of dat ''defaultBillingAddressId'' = Some aid \<and>
            map_of dat ''defaultShippingAddressId'' = Some aid \<and>
            map_of dat ''addresses'' = Some (JArr [JObj a]) \<and> map_of a ''id'' = Some aid)))
   \<and> (update_customer_generic env c is_zr_contact ex t = (r', t') \<longrightarrow>
      (\<forall>q\<in>set (issued t t'). meth q \<noteq> GET \<longrightarrow>
         (\<exists>aid dat a. body q = Some (JObj dat) \<and>
            map_of dat ''defaultBillingAddressId'' = Some aid \<and>
            map_of dat ''defaultShippingAddressId'' = Some aid \<and>
            map_of dat ''addresses'' = Some (JArr [JObj a]) \<and> map_of a ''id'' = Some aid)))
   \<and> create_customer env (u\<lparr>adresstyp := ty\<rparr>) s = create_customer env u s
   \<and> create_zr_customer env (z\<lparr>adresstyp := ty\<rparr>) s = create_zr_customer env z s
   \<and> update_customer env (u\<lparr>adresstyp := ty\<rparr>) ex s = update_customer env u ex s
   \<and> update_zr_customer env (z\<lparr>adresstyp := ty\<rparr>) ex s = update_zr_customer env z ex s"
proof (intro conjI; (intro impI ballI)?)
  fix q assume "create_customer_generic env c is_zr_contact s = (r, s')"
    "q \<in> set (issued s s')" "meth q \<noteq> GET"
  from create_writes [OF this] obtain v gid cid dat where
    "create_customer_data c is_zr_contact cid gid (JStr (filter (\<lambda>ch. ch \<noteq> CHR ''-'') v)) = Inr dat"
    "q = \<lparr>meth = POST, url = Shopware_customer, params = [], body = Some dat\<rparr>"
    by blast
  then show "\<exists>aid dat a. body q = Some (JObj dat) \<and>
            map_of dat ''defaultBillingAddressId'' = Some aid \<and>
            map_of dat ''defaultShippingAddressId'' = Some aid \<and>
            map_of dat ''addresses'' = Some (JArr [JObj a]) \<and> map_of a ''id'' = Some aid"
    by (auto simp: create_customer_data_def split: sum.splits if_splits)
next
  fix q assume "update_customer_generic env c is_zr_contact ex t = (r', t')"
    "q \<in> set (issued t t')" "meth q \<noteq> GET"
  from update_writes [OF this] obtain customer_id aid gid cid dat where
    "update_customer_data c is_zr_contact cid gid aid = Inr dat"
    "q = \<lparr>meth = PATCH, url = Shopware_customer_id customer_id, params = [], body = Some dat\<rparr>"
    by blast
  then show "\<exists>aid dat a. body q = Some (JObj dat) \<and>
            map_of dat ''defaultBillingAddressId'' = Some aid \<and>
            map_of dat ''defaultShippingAddressId'' = Some aid \<and>
            map_of dat ''addresses'' = Some (JArr [JObj a]) \<and> map_of a ''id'' = Some aid"
    by (auto simp: update_customer_data_def split: sum.splits if_splits)
next
  show "create_customer env (u\<lparr>adresstyp := ty\<rparr>) s = create_customer env u s"
    by (simp add: create_customer_def create_customer_generic_def create_customer_data_def vatIds_def
        cong: sum.case_cong prod.case_cong if_cong)
next
  show "create_zr_customer env (z\<lparr>adresstyp := ty\<rparr>) s = create_zr_customer env z s"
    by (simp add: create_zr_customer_def create_customer_generic_def create_customer_data_def vatIds_def
        cong: sum.case_cong prod.case_cong if_cong)
next
  show "update_customer env (u\<lparr>adresstyp := ty\<rparr>) ex s = update_customer env u ex s"
    by (simp add: update_customer_def update_customer_generic_def update_customer_data_def vatIds_def
        cong: sum.case_cong prod.case_cong if_cong)
next
  show "update_zr_customer env (z\<lparr>adresstyp := ty\<rparr>) ex s = update_zr_customer env z ex s"
    by (simp add: update_zr_customer_def update_customer_generic_def update_customer_data_def vatIds_def
        cong: sum.case_cong prod.case_cong if_cong)
qed

theorem default_addresses_ignore_adresstyp_witness:
  "\<exists>q dat. q \<in> set (issued (start sample_remote)
                 (snd (create_customer_generic (shop merge) (User sample_user) False
                    (start sample_remote)))) \<and>
      meth q = POST \<and> body q = Some (JObj dat) \<and>
      map_of dat ''defaultBillingAddressId'' = map_of dat ''defaultShippingAddressId'' \<and>
      map_of dat ''defaultBillingAddressId'' \<noteq> None"
proof -
  let ?res = "create_customer_generic (shop merge) (User sample_user) False (start sample_remote)"
  have "\<exists>q\<in>set (issued (start sample_remote) (snd ?res)). meth q = POST"
    by (simp add: shop_defs client_defs sample_defs issued_def)
  then obtain q where q: "q \<in> set (issued (start sample_remote) (snd ?res))" "meth q = POST" by blast
  have run: "?res = (fst ?res, snd ?res)" by simp
  have "meth q \<noteq> GET" using q by simp
  from default_addresses_ignore_adresstyp [THEN conjunct1, rule_format, OF run q(1) this]
  obtain aid dat where
    "body q = Some (JObj dat)"
    "map_of dat ''defaultBillingAddressId'' = Some aid"
    "map_of dat ''defaultShippingAddressId'' = Some aid"
    by blast
  with q show ?thesis by auto
qed

text \<open>
  C4, as stated, fails: the contact whose address type is \<open>Rechnungsanschrift\<close> alone
  is created with the default shipping slot pointing at the new address too.
\<close>

theorem billing_only_contact_gets_shipping_slot:
  "\<exists>s' dat a.
     adresstyp sample_zr = ''Rechnungsanschrift'' \<and>
     sync_zr_contact (shop merge) sample_zr ((0, 0, 0), start sample_remote) = ((0, 1, 0), s') \<and>
     last (sent s') = \<lparr>meth = POST, url = Shopware_customer, params = [],
                        body = Some (JObj dat)\<rparr> \<and>
     map_of dat ''addresses'' = Some (JArr [JObj a]) \<and> map_of a ''id'' = Some (JStr ''uuid'') \<and>
     map_of dat ''defaultBillingAddressId'' = Some (JStr ''uuid'') \<and>
     map_of dat ''defaultShippingAddressId'' = Some (JStr ''uuid'')"
  by (simp add: shop_defs client_defs sample_defs)

section \<open>The reconciliation loops\<close>

lemma update_customer_generic_issued:
  assumes "update_customer_generic env c z ex s = (r, s')"
  shows "\<exists>rs. sent s' = sent s @ rs \<and> (\<forall>q\<in>set rs. meth q \<noteq> POST \<and> \<not> is_lookup q)"
  using update_customer_generic_sent [OF assms] unfolding is_lookup_def
  by (elim exE conjE) (rule exI, rule conjI, assumption, auto)

lemma create_customer_generic_issued:
  assumes "create_customer_generic env c z s = (r, s')"
  shows "\<exists>rs. sent s' = sent s @ rs \<and> (\<forall>q\<in>set rs. meth q \<noteq> PATCH \<and> \<not> is_lookup q)"
  using create_customer_generic_sent [OF assms] unfolding is_lookup_def
  by (elim exE conjE) (rule exI, rule conjI, assumption, auto)

text \<open>One step of a loop, by the three ways it can go.\<close>

lemma sync_user_lookup_raises:
  "get_customer_by_custom_field_entraid env (entraID u) s = (Inl e, s1) \<Longrightarrow>
   sync_user env u ((up, cr, fa), s) =
     ((up, cr, fa + 1), log_error (Failed_to_process_user (eMailadresse u) e) s1)"
  by simp



lemma sync_zr_contact_lookup_raises:
  "get_customer_by_customer_number env (zrNummer z) s = (Inl e, s1) \<Longrightarrow>
   sync_zr_contact env z ((up, cr, fa), s) =
     ((up, cr, fa + 1), log_error (Failed_to_process_ZR_customer (zrNummer z) e) s1)"
  by simp



text \<open>What a step sends: its lookup, then no further lookup.\<close>

lemma sync_user_sent:
  assumes "sync_user env u (cs, s) = (cs', s')"
  shows "\<exists>rs. sent s' = sent s @ lookup_entraid (entraID u) # rs \<and> (\<forall>q\<in>set rs. \<not> is_lookup q)"
proof -
  obtain up cr fa where cs: "cs = (up, cr, fa)" by (cases cs)
  obtain x s1 where l: "get_customer_by_custom_field_entraid env (entraID u) s = (x, s1)"
    by (cases "get_customer_by_custom_field_entraid env (entraID u) s")
  have s1: "sent s1 = sent s @ [lookup_entraid (entraID u)]"
    using get_customer_by_custom_field_entraid_sent [OF l] by (simp add: lookup_entraid_def)
  show ?thesis
  proof (cases x)
    case (Inl e)
    with assms cs l s1 show ?thesis by auto
  next
    case (Inr ex)
    show ?thesis
    proof (cases "truthy ex")
      case True
      obtain r s2 where up: "update_customer_generic env (User u) False ex s1 = (r, s2)"
        by (cases "update_customer_generic env (User u) False ex s1")
      from update_customer_generic_issued [OF up] obtain rs where
        "sent s2 = sent s1 @ rs" "\<forall>q\<in>set rs. meth q \<noteq> POST \<and> \<not> is_lookup q" by blast
      with assms cs l s1 Inr True up show ?thesis
        by (auto simp: update_customer_def split: sum.splits)
    next
      case False
      obtain r s2 where cr: "create_customer_generic env (User u) False s1 = (r, s2)"
        by (cases "create_customer_generic env (User u) False s1")
      from create_customer_generic_issued [OF cr] obtain rs where
        "sent s2 = sent s1 @ rs" "\<forall>q\<in>set rs. meth q \<noteq> PATCH \<and> \<not> is_lookup q" by blast
      with assms cs l s1 Inr False cr show ?thesis
        by (auto simp: create_customer_def split: sum.splits)
    qed
  qed
qed

lemma sync_zr_contact_sent:
  assumes "sync_zr_contact env z (cs, s) = (cs', s')"
  shows "\<exists>rs. sent s' = sent s @ lookup_number (zrNummer z) # rs \<and> (\<forall>q\<in>set rs. \<not> is_lookup q)"
proof -
  obtain up cr fa where cs: "cs = (up, cr, fa)" by (cases cs)
  obtain x s1 where l: "get_customer_by_customer_number env (zrNummer z) s = (x, s1)"
    by (cases "get_customer_by_customer_number env (zrNummer z) s")
  have s1: "sent s1 = sent s @ [lookup_number (zrNummer z)]"
    using get_customer_by_customer_number_sent [OF l] by (simp add: lookup_number_def)
  show ?thesis
  proof (cases x)
    case (Inl e)
    with assms cs l s1 show ?thesis by auto
  next
    case (Inr ex)
    show ?thesis
    proof (cases "truthy ex")
      case True
      obtain r s2 where up: "update_customer_generic env (Zr z) True ex s1 = (r, s2)"
        by (cases "update_customer_generic env (Zr z) True ex s1")
      from update_customer_generic_issued [OF up] obtain rs where
        "sent s2 = sent s1 @ rs" "\<forall>q\<in>set rs. meth q \<noteq> POST \<and> \<not> is_lookup q" by blast
      with assms cs l s1 Inr True up show ?thesis
        by (auto simp: update_zr_customer_def split: sum.splits)
    next
      case False
      obtain r s2 where cr: "create_customer_generic env (Zr z) True s1 = (r, s2)"
        by (cases "create_customer_generic env (Zr z) True s1")
      from create_customer_generic_issued [OF cr] obtain rs where
        "sent s2 = sent s1 @ rs" "\<forall>q\<in>set rs. meth q \<noteq> PATCH \<and> \<not> is_lookup q" by blast
      with assms cs l s1 Inr False cr show ?thesis
        by (auto simp: create_zr_customer_def split: sum.splits)
    qed
  qed
qed

lemma is_lookup_simps [simp]:
  "is_lookup (lookup_entraid i)" "is_lookup (lookup_number n)"
  "meth (lookup_entraid i) = GET" "meth (lookup_number n) = GET"
  by (simp_all add: is_lookup_def lookup_entraid_def lookup_number_def)

lemma filter_no_lookup: "\<forall>q\<in>set rs. \<not> is_lookup q \<Longrightarrow> filter is_lookup rs = []"
  by (induction rs) auto








section \<open>The tallies of a pass\<close>



lemma sync_user_counters:
  "sync_user env u ((up, cr, fa), s) = ((up', cr', fa'), s') \<Longrightarrow> up' + cr' + fa' = up + cr + fa + 1"
  by (auto split: prod.splits sum.splits if_splits)

lemma sync_zr_contact_counters:
  "sync_zr_contact env z ((up, cr, fa), s) = ((up', cr', fa'), s') \<Longrightarrow>
   up' + cr' + fa' = up + cr + fa + 1"
  by (auto split: prod.splits sum.splits if_splits)

lemma sync_users_loop_counters:
  "sync_users_loop env us ((up, cr, fa), s) = ((up', cr', fa'), s') \<Longrightarrow>
   up' + cr' + fa' = up + cr + fa + length us"
proof (induction us arbitrary: up cr fa s)
  case Nil
  then show ?case by simp
next
  case (Cons u us)
  obtain up1 cr1 fa1 s1 where step: "sync_user env u ((up, cr, fa), s) = ((up1, cr1, fa1), s1)"
    by (metis prod.exhaust)
  from Cons.prems have "sync_users_loop env us ((up1, cr1, fa1), s1) = ((up', cr', fa'), s')"
    by (simp only: sync_users_loop.simps step)
  from Cons.IH [OF this] sync_user_counters [OF step] show ?case by simp
qed

lemma sync_zr_customers_loop_counters:
  "sync_zr_customers_loop env zs ((up, cr, fa), s) = ((up', cr', fa'), s') \<Longrightarrow>
   up' + cr' + fa' = up + cr + fa + length zs"
proof (induction zs arbitrary: up cr fa s)
  case Nil
  then show ?case by simp
next
  case (Cons z zs)
  obtain up1 cr1 fa1 s1 where step: "sync_zr_contact env z ((up, cr, fa), s) = ((up1, cr1, fa1), s1)"
    by (metis prod.exhaust)
  from Cons.prems have "sync_zr_customers_loop env zs ((up1, cr1, fa1), s1) = ((up', cr', fa'), s')"
    by (simp only: sync_zr_customers_loop.simps step)
  from Cons.IH [OF this] sync_zr_contact_counters [OF step] show ?case by simp
qed

lemma sync_users_loop_append:
  "sync_users_loop env (xs @ ys) cs = sync_users_loop env ys (sync_users_loop env xs cs)"
  by (induction xs arbitrary: cs) simp_all

lemma sync_zr_customers_loop_append:
  "sync_zr_customers_loop env (xs @ ys) cs =
   sync_zr_customers_loop env ys (sync_zr_customers_loop env xs cs)"
  by (induction xs arbitrary: cs) simp_all

lemma sync_users_loop_sent:
  "sync_users_loop env us (cs, s) = (cs', s') \<Longrightarrow>
   \<exists>rs. sent s' = sent s @ rs \<and> filter is_lookup rs = map (\<lambda>u. lookup_entraid (entraID u)) us"
proof (induction us arbitrary: cs s)
  case Nil
  then show ?case by simp
next
  case (Cons u us)
  obtain cs1 s1 where step: "sync_user env u (cs, s) = (cs1, s1)"
    by (cases "sync_user env u (cs, s)")
  from Cons.prems have "sync_users_loop env us (cs1, s1) = (cs', s')"
    by (simp only: sync_users_loop.simps step)
  from Cons.IH [OF this] obtain rs where
    rs: "sent s' = sent s1 @ rs" "filter is_lookup rs = map (\<lambda>u. lookup_entraid (entraID u)) us"
    by blast
  from sync_user_sent [OF step] obtain qs where
    qs: "sent s1 = sent s @ lookup_entraid (entraID u) # qs" "\<forall>q\<in>set qs. \<not> is_lookup q" by blast
  have "sent s' = sent s @ (lookup_entraid (entraID u) # qs @ rs)" using rs qs by simp
  moreover have "filter is_lookup (lookup_entraid (entraID u) # qs @ rs) =
      map (\<lambda>u. lookup_entraid (entraID u)) (u # us)"
    using rs(2) qs(2) by (simp add: filter_no_lookup)
  ultimately show ?case by blast
qed

lemma sync_zr_customers_loop_sent:
  "sync_zr_customers_loop env zs (cs, s) = (cs', s') \<Longrightarrow>
   \<exists>rs. sent s' = sent s @ rs \<and> filter is_lookup rs = map (\<lambda>z. lookup_number (zrNummer z)) zs"
proof (induction zs arbitrary: cs s)
  case Nil
  then show ?case by simp
next
  case (Cons z zs)
  obtain cs1 s1 where step: "sync_zr_contact env z (cs, s) = (cs1, s1)"
    by (cases "sync_zr_contact env z (cs, s)")
  from Cons.prems have "sync_zr_customers_loop env zs (cs1, s1) = (cs', s')"
    by (simp only: sync_zr_customers_loop.simps step)
  from Cons.IH [OF this] obtain rs where
    rs: "sent s' = sent s1 @ rs" "filter is_lookup rs = map (\<lambda>z. lookup_number (zrNummer z)) zs"
    by blast
  from sync_zr_contact_sent [OF step] obtain qs where
    qs: "sent s1 = sent s @ lookup_number (zrNummer z) # qs" "\<forall>q\<in>set qs. \<not> is_lookup q" by blast
  have "sent s' = sent s @ (lookup_number (zrNummer z) # qs @ rs)" using rs qs by simp
  moreover have "filter is_lookup (lookup_number (zrNummer z) # qs @ rs) =
      map (\<lambda>z. lookup_number (zrNummer z)) (z # zs)"
    using rs(2) qs(2) by (simp add: filter_no_lookup)
  ultimately show ?case by blast
qed

lemma sync_users_returns:
  assumes "get_all_contacts env (log_info Starting_user_synchronization s) = (Inr admin_users, s1)"
  shows "\<exists>up cr fa s'. sync_users env s = (Inr (length admin_users, up, cr), s') \<and>
           length admin_users = up + cr + fa \<and>
           last (logged s') = (INFO, Synchronization_completed (length admin_users) up cr fa)"
proof -
  obtain up cr fa s2 where loop: "sync_users_loop env admin_users
      ((0, 0, 0), log_info (Processing_users (length admin_users)) s1) = ((up, cr, fa), s2)"
    by (metis prod.exhaust)
  from sync_users_loop_counters [OF loop] have "length admin_users = up + cr + fa" by simp
  moreover have "sync_users env s = (Inr (length admin_users, up, cr),
      log_info (Synchronization_completed (length admin_users) up cr fa) s2)"
    by (simp add: sync_users_def assms loop)
  ultimately show ?thesis by auto
qed

lemma sync_zr_customers_returns:
  assumes "get_all_zr_contacts env (log_info Starting_ZR_customer_synchronization s) = (Inr zr_contacts, s1)"
  shows "\<exists>up cr fa s'. sync_zr_customers env s = (Inr (length zr_contacts, up, cr), s') \<and>
           length zr_contacts = up + cr + fa \<and>
           last (logged s') = (INFO, ZR_synchronization_completed (length zr_contacts) up cr fa)"
proof -
  obtain up cr fa s2 where loop: "sync_zr_customers_loop env zr_contacts
      ((0, 0, 0), log_info (Processing_ZR_contacts (length zr_contacts)) s1) = ((up, cr, fa), s2)"
    by (metis prod.exhaust)
  from sync_zr_customers_loop_counters [OF loop] have "length zr_contacts = up + cr + fa" by simp
  moreover have "sync_zr_customers env s = (Inr (length zr_contacts, up, cr),
      log_info (ZR_synchronization_completed (length zr_contacts) up cr fa) s2)"
    by (simp add: sync_zr_customers_def assms loop)
  ultimately show ?thesis by auto
qed



section \<open>Failures of a record\<close>

lemma get_all_zr_contacts_sent:
  "get_all_zr_contacts env s = (x, s') \<Longrightarrow> sent s' = sent s @ [zr_fetch]"
  by (auto simp: get_all_zr_contacts_def zr_fetch_def split: prod.splits sum.splits dest!: send_sent)

lemma sync_zr_customers_sent:
  assumes "sync_zr_customers env s = (r, s')"
  shows "\<exists>rs. sent s' = sent s @ zr_fetch # rs"
proof -
  obtain x s1 where f: "get_all_zr_contacts env (log_info Starting_ZR_customer_synchronization s) = (x, s1)"
    by (metis prod.exhaust)
  from get_all_zr_contacts_sent [OF f] have s1: "sent s1 = sent s @ [zr_fetch]" by simp
  show ?thesis
  proof (cases x)
    case (Inl e)
    with assms f s1 show ?thesis by (auto simp: sync_zr_customers_def)
  next
    case (Inr zs)
    obtain cs s2 where loop: "sync_zr_customers_loop env zs
        ((0, 0, 0), log_info (Processing_ZR_contacts (length zs)) s1) = (cs, s2)"
      by (metis prod.exhaust)
    from sync_zr_customers_loop_sent [OF loop] obtain rs where "sent s2 = sent s1 @ rs" by auto
    with assms f s1 Inr loop show ?thesis
      by (auto simp: sync_zr_customers_def split: prod.splits)
  qed
qed

lemma run_sync_reaches_zr_pass:
  assumes auth: "authenticate env client_id client_secret (log_info Initializing_sync_service s) = (Inr token, s1)"
    and fetch: "get_all_contacts env (log_info Starting_user_synchronization s1) = (Inr admin_users, s2)"
  shows "zr_fetch \<in> set (sent (snd (run_sync env client_id client_secret s)))"
proof -
  from sync_users_returns [OF fetch] obtain up cr s3 where
    u: "sync_users env s1 = (Inr (length admin_users, up, cr), s3)" by blast
  obtain r s4 where z: "sync_zr_customers env (log_info (Sync_completed_successfully cr up) s3) = (r, s4)"
    by (metis prod.exhaust)
  from sync_zr_customers_sent [OF z] obtain rs where "sent s4 = sent s3 @ zr_fetch # rs" by auto
  then show ?thesis
    by (cases r) (auto simp: run_sync_def auth u z split: prod.splits)
qed

text \<open>
  C7. For every record of either list, an exception raised by the lookup, by the
  update or by the create is caught in the step: the step returns, counts the
  record as failed and nothing else, and logs an error with the e-mail address
  (individual) or the zrNummer (ZR) and the exception. The loop goes on: it is the
  loop of the rest run after the loop of the records before, and the customer
  lookups it sends are those of all its records, in order, whatever failed. A pass
  whose list was fetched returns a result, never an exception, so the ZR list is
  fetched after the user pass whenever the run got to the user loop.
\<close>

theorem record_failures_are_contained:
  "(get_customer_by_custom_field_entraid env (entraID u) s = (Inl e, s1) \<longrightarrow>
      sync_user env u ((up, cr, fa), s) =
        ((up, cr, fa + 1), log_error (Failed_to_process_user (eMailadresse u) e) s1))
   \<and> (get_customer_by_custom_field_entraid env (entraID u) s = (Inr ex, s1) \<and> truthy ex \<and>
       update_customer env u ex s1 = (Inl e, s2) \<longrightarrow>
      sync_user env u ((up, cr, fa), s) =
        ((up, cr, fa + 1), log_error (Failed_to_process_user (eMailadresse u) e) s2))
   \<and> (get_customer_by_custom_field_entraid env (entraID u) s = (Inr ex, s1) \<and> \<not> truthy ex \<and>
       create_customer env u s1 = (Inl e, s2) \<longrightarrow>
      sync_user env u ((up, cr, fa), s) =
        ((up, cr, fa + 1), log_error (Failed_to_process_user (eMailadresse u) e) s2))
   \<and> (get_customer_by_customer_number env (zrNummer z) s = (Inl e, s1) \<longrightarrow>
      sync_zr_contact env z ((up, cr, fa), s) =
        ((up, cr, fa + 1), log_error (Failed_to_process_ZR_customer (zrNummer z) e) s1))
   \<and> (get_customer_by_customer_number env (zrNummer z) s = (Inr ex, s1) \<and> truthy ex \<and>
       update_zr_customer env z ex s1 = (Inl e, s2) \<longrightarrow>
      sync_zr_contact env z ((up, cr, fa), s) =
        ((up, cr, fa + 1), log_error (Failed_to_process_ZR_customer (zrNummer z) e) s2))
   \<and> (get_customer_by_customer_number env (zrNummer z) s = (Inr ex, s1) \<and> \<not> truthy ex \<and>
       create_zr_customer env z s1 = (Inl e, s2) \<longrightarrow>
      sync_zr_contact env z ((up, cr, fa), s) =
        ((up, cr, fa + 1), log_error (Failed_to_process_ZR_customer (zrNummer z) e) s2))
   \<and> sync_users_loop env (us @ us') st = sync_users_loop env us' (sync_users_loop env us st)
   \<and> sync_zr_customers_loop env (zs @ zs') st =
       sync_zr_customers_loop env zs' (sync_zr_customers_loop env zs st)
   \<and> (sync_users_loop env us (cs, t) = (cs', t') \<longrightarrow>
       filter is_lookup (issued t t') = map (\<lambda>u. lookup_entraid (entraID u)) us)
   \<and> (sync_zr_customers_loop env zs (cs, t) = (cs', t') \<longrightarrow>
       filter is_lookup (issued t t') = map (\<lambda>z. lookup_number (zrNummer z)) zs)
   \<and> (get_all_contacts env (log_info Starting_user_synchronization t) = (Inr us, t1) \<longrightarrow>
       (\<exists>res t'. sync_users env t = (Inr res, t')))
   \<and> (get_all_zr_contacts env (log_info Starting_ZR_customer_synchronization t) = (Inr zs, t1) \<longrightarrow>
       (\<exists>res t'. sync_zr_customers env t = (Inr res, t')))
   \<and> (authenticate env client_id client_secret (log_info Initializing_sync_service t) = (Inr token, t1) \<and>
       get_all_contacts env (log_info Starting_user_synchronization t1) = (Inr us, t2) \<longrightarrow>
       zr_fetch \<in> set (sent (snd (run_sync env client_id client_secret t))))"
proof (intro conjI impI; (elim conjE)?)
  show "sync_users_loop env (us @ us') st = sync_users_loop env us' (sync_users_loop env us st)"
    by (rule sync_users_loop_append)
  show "sync_zr_customers_loop env (zs @ zs') st =
       sync_zr_customers_loop env zs' (sync_zr_customers_loop env zs st)"
    by (rule sync_zr_customers_loop_append)
next
  assume "sync_users_loop env us (cs, t) = (cs', t')"
  from sync_users_loop_sent [OF this] show
    "filter is_lookup (issued t t') = map (\<lambda>u. lookup_entraid (entraID u)) us"
    by (auto simp: issued_def)
next
  assume "sync_zr_customers_loop env zs (cs, t) = (cs', t')"
  from sync_zr_customers_loop_sent [OF this] show
    "filter is_lookup (issued t t') = map (\<lambda>z. lookup_number (zrNummer z)) zs"
    by (auto simp: issued_def)
next
  assume "get_all_contacts env (log_info Starting_user_synchronization t) = (Inr us, t1)"
  from sync_users_returns [OF this] show "\<exists>res t'. sync_users env t = (Inr res, t')" by blast
next
  assume "get_all_zr_contacts env (log_info Starting_ZR_customer_synchronization t) = (Inr zs, t1)"
  from sync_zr_customers_returns [OF this] show "\<exists>res t'. sync_zr_customers env t = (Inr res, t')"
    by blast
next
  assume "authenticate env client_id client_secret (log_info Initializing_sync_service t) = (Inr token, t1)"
    "get_all_contacts env (log_info Starting_user_synchronization t1) = (Inr us, t2)"
  then show "zr_fetch \<in> set (sent (snd (run_sync env client_id client_secret t)))"
    by (rule run_sync_reaches_zr_pass)
qed simp_all


theorem record_failures_are_contained_witness:
  "fst (sync_zr_contact (shop merge) sample_zr
          ((0, 0, 0), start (sample_remote\<lparr>customer_groups := []\<rparr>))) = (0, 0, 1)
   \<and> last (logged (snd (sync_zr_contact (shop merge) sample_zr
          ((0, 0, 0), start (sample_remote\<lparr>customer_groups := []\<rparr>)))))
       = (ERROR, Failed_to_process_ZR_customer ''112212''
                   (ValueError ''Failed to get required Shopware IDs''))"
proof -
  let ?t = "start (sample_remote\<lparr>customer_groups := []\<rparr>)"
  let ?l = "get_customer_by_customer_number (shop merge) (zrNummer sample_zr) ?t"
  let ?c = "create_zr_customer (shop merge) sample_zr (snd ?l)"
  have "fst ?l = Inr JNull"
    by (simp add: shop_defs client_defs sample_defs)
  then have l: "?l = (Inr JNull, snd ?l)" by (metis prod.collapse)
  have "fst ?c = Inl (ValueError ''Failed to get required Shopware IDs'')"
    by (simp add: shop_defs client_defs sample_defs)
  then have c: "?c = (Inl (ValueError ''Failed to get required Shopware IDs''), snd ?c)"
    by (metis prod.collapse)
  have t: "\<not> truthy JNull" by simp
  from record_failures_are_contained [THEN conjunct2, THEN conjunct2, THEN conjunct2,
      THEN conjunct2, THEN conjunct2, THEN conjunct1, rule_format, OF conjI [OF l conjI [OF t c]]]
  have "sync_zr_contact (shop merge) sample_zr ((0, 0, 0), ?t) =
        ((0, 0, 0 + 1), log_error (Failed_to_process_ZR_customer (zrNummer sample_zr)
            (ValueError ''Failed to get required Shopware IDs'')) (snd ?c))" .
  then show ?thesis by (simp add: sample_zr_def)
qed

section \<open>Where the code departs from its description\<close>

lemmas more_sample_defs = other_user_json_def three_zr_json_def

text \<open>
  C6 against the code. A record the server returns with every mandatory field
  populated passes the filter on the mandatory fields and parses, the log reports
  one fetched contact, and yet the fetch returns no contact: the assignment under
  \<^verbatim>\<open># MOCK TODO - FLZ\<close> drops every record whose e-mail address is not the one
  written there. The pass then reports a total of 0.
\<close>

theorem mock_filter_drops_complete_record:
  "all_get other_user_json mandatory = Inr True
   \<and> map_sum id eMailadresse (new_AdminPanelUser other_user_json) = Inr ''anna@example.org''
   \<and> fst (get_all_contacts (shop merge)
            (start (sample_remote\<lparr>contact_list := JArr [other_user_json]\<rparr>))) = Inr []
   \<and> logged (snd (get_all_contacts (shop merge)
            (start (sample_remote\<lparr>contact_list := JArr [other_user_json]\<rparr>))))
       = [(INFO, Successfully_fetched_contacts 1)]
   \<and> fst (sync_users (shop merge)
            (start (sample_remote\<lparr>contact_list := JArr [other_user_json]\<rparr>))) = Inr (0, 0, 0)"
  by code_simp

text \<open>
  C2 against the code. Of the three ZR contacts the second has a country code the
  destination does not resolve: \<^verbatim>\<open>_get_country_id\<close> gives \<^verbatim>\<open>None\<close>, which nothing
  checks. The mapping does not fail; the record is written with a null
  \<open>countryId\<close>, and against a destination that accepts the write the pass reports
  three created records and no failure.
\<close>

theorem unresolved_country_is_written:
  "fst (get_country_id (shop merge) ''xx''
          (start (sample_remote\<lparr>zr_contact_list := three_zr_json\<rparr>))) = Inr JNull
   \<and> fst (sync_zr_customers (shop merge)
            (start (sample_remote\<lparr>zr_contact_list := three_zr_json\<rparr>))) = Inr (3, 0, 3)
   \<and> map_of (customers (world (snd (sync_zr_customers (shop merge)
                (start (sample_remote\<lparr>zr_contact_list := three_zr_json\<rparr>))))) ! 1) ''addresses''
       = Some (JArr [JObj [(''id'', JStr ''uuid0''), (''firstName'', JNull), (''lastName'', JNull),
                           (''street'', JStr ''Ring 5''), (''zipcode'', JStr ''1010''),
                           (''city'', JStr ''Wien''), (''countryId'', JNull),
                           (''company'', JStr ''Zwei OHG'')]])"
  by code_simp

section \<open>The client against the sample destination\<close>

lemma find_group_entities:
  "find_group (map group_entity gs) n = map_option (\<lambda>g. Inr (snd g)) (find (\<lambda>g. fst g = n) gs)"
  by (induction gs) (auto simp: group_entity_def)

lemma state_world_same [simp]: "s\<lparr>world := world s\<rparr> = s"
  by simp

lemma get_customer_group_id_shop:
  "get_customer_group_id (shop patch) n s =
     (Inr (group_id_of (world s) n),
      s\<lparr>sent := sent s @ [\<lparr>meth = GET, url = Shopware_customer_group, params = [], body = None\<rparr>]\<rparr>)"
  by (cases "customer_groups (world s)")
     (auto simp: get_customer_group_id_def send_def shop_def shop_http_def find_group_entities
        group_id_of_def group_entity_def split: option.splits)

lemma get_country_id_shop:
  "get_country_id (shop patch) iso_code s =
     (Inr (country_id_of (world s) iso_code),
      s\<lparr>sent := sent s @ [\<lparr>meth = GET, url = Spotmarkt_country,
                               params = [(''filter[iso]'', upper iso_code)], body = None\<rparr>]\<rparr>)"
  by (cases "filter (\<lambda>c. fst c = upper iso_code) (country_list (world s))")
     (auto simp: get_country_id_def send_def shop_def shop_http_def country_id_of_def
        country_entity_def)

lemma filter_enumerate_first:
  "(case filter (\<lambda>c. P (snd c)) (enumerate n xs) of [] \<Rightarrow> None | c # cs \<Rightarrow> Some c) =
   map_option (\<lambda>i. (n + i, xs ! i)) (first_match P xs)"
proof (induction xs arbitrary: n)
  case Nil
  then show ?case by simp
next
  case (Cons x xs)
  show ?case
  proof (cases "P x")
    case True
    then show ?thesis by simp
  next
    case False
    with Cons.IH [of "Suc n"] show ?thesis
      by (simp add: option.map_comp comp_def)
  qed
qed

lemma first_customer_shop:
  "first_customer (JObj [(''data'', JArr (map customer_entity
       (filter (\<lambda>c. P (snd c)) (enumerate 0 xs))))]) =
   Inr (case first_match P xs of None \<Rightarrow> JNull | Some i \<Rightarrow> customer_entity (i, xs ! i))"
  using filter_enumerate_first [of P 0 xs]
  by (cases "filter (\<lambda>c. P (snd c)) (enumerate 0 xs)")
     (auto simp: first_customer_def split: option.splits)

lemma get_customer_by_customer_number_shop:
  "get_customer_by_customer_number (shop patch) n s =
     (Inr (found (world s) (''filter[customerNumber]'', n)),
      s\<lparr>sent := sent s @ [lookup_number n]\<rparr>)"
  by (simp add: get_customer_by_customer_number_def send_def shop_def shop_http_def
      first_customer_shop found_def lookup_number_def)

lemma get_customer_by_custom_field_entraid_shop:
  "get_customer_by_custom_field_entraid (shop patch) i s =
     (Inr (found (world s) (''filter[customFields.custom_identifier_user_entraid_]'', i)),
      s\<lparr>sent := sent s @ [lookup_entraid i]\<rparr>)"
  by (simp add: get_customer_by_custom_field_entraid_def send_def shop_def shop_http_def
      first_customer_shop found_def lookup_entraid_def)

lemma update_customer_data_payload:
  "update_customer_data c (is_zr c) a b d = Inr (JObj (payload c a b d))"
  by (cases c) (simp_all add: payload_def update_customer_data_def)

lemma create_customer_data_payload:
  "create_customer_data c (is_zr c) a b d = Inr (JObj (payload c a b d @ [custom_fields c]))"
  by (cases c) (simp_all add: payload_def update_customer_data_def create_customer_data_def)

lemma payload_fst: "map fst (payload c a b d) = payload_keys"
  by (cases c) (simp_all add: payload_def update_customer_data_def payload_keys_def)

lemma payload_billing: "billing_of (payload c a b d @ r) = d"
  by (cases c) (simp_all add: payload_def update_customer_data_def billing_of_def)

lemma payload_number:
  "map_of (payload c a b d @ r) ''customerNumber'' = Some (JStr (zrNummer (common c)))"
  by (cases c) (simp_all add: payload_def update_customer_data_def)

lemma custom_fields_key: "fst (custom_fields c) \<notin> set payload_keys"
  by (cases c) (simp_all add: payload_keys_def)

lemma merge_payload: "merge (payload c a b d) x = payload c a b d @ rest_of x"
proof -
  have "fst ` set (payload c a b d) = set payload_keys"
    using payload_fst [of c a b d] by (metis set_map)
  then show ?thesis by (simp add: merge_def rest_of_def)
qed

lemma rest_of_payload: "rest_of (payload c a b d @ r) = rest_of r"
proof -
  have "\<forall>kv\<in>set (payload c a b d). fst kv \<in> set payload_keys"
    using payload_fst [of c a b d] by (metis imageI set_map)
  then show ?thesis by (simp add: rest_of_def)
qed

lemma rest_of_idem [simp]: "rest_of (rest_of x) = rest_of x"
  by (simp add: rest_of_def)

lemma rest_of_custom_fields [simp]: "rest_of [custom_fields c] = [custom_fields c]"
  using custom_fields_key [of c] by (simp add: rest_of_def)

lemma map_of_rest_of: "k \<notin> set payload_keys \<Longrightarrow> map_of (rest_of x) k = map_of x k"
  by (induction x) (auto simp: rest_of_def)

text \<open>An update and a create against the destination.\<close>

lemma update_customer_generic_shop:
  assumes "i < length (customers (world s))"
  shows "fst (update_customer_generic (shop merge) c (is_zr c)
                (customer_entity (i, customers (world s) ! i)) s) = Inr () \<and>
         world (snd (update_customer_generic (shop merge) c (is_zr c)
                (customer_entity (i, customers (world s) ! i)) s)) =
           (world s)\<lparr>customers := (customers (world s))
               [i := merge (payload c (country_id_of (world s) (land (common c)))
                              (group_id_of (world s) (group_of c))
                              (billing_of (customers (world s) ! i)))
                       (customers (world s) ! i)]\<rparr>"
proof -
  have g: "(if is_zr c then ''ZR-Kunden'' else ''User-Kunden'') = group_of c" by (cases c) simp_all
  show ?thesis using assms
    unfolding update_customer_generic_def g
    by (simp add: customer_entity_def get_customer_group_id_shop
        get_country_id_shop update_customer_data_payload billing_of_def split: option.splits)
       (simp add: send_def shop_def shop_http_def)
qed

lemma create_customer_generic_shop:
  assumes "truthy (group_id_of (world s) (group_of c))"
  shows "fst (create_customer_generic (shop merge) c (is_zr c) s) = Inr () \<and>
         world (snd (create_customer_generic (shop merge) c (is_zr c) s)) =
           (world s)\<lparr>customers := customers (world s) @
                   [payload c (country_id_of (world s) (land (common c)))
                      (group_id_of (world s) (group_of c))
                      (JStr (filter (\<lambda>ch. ch \<noteq> CHR ''-'') (fst (shop_uuid4 (world s)))))
                    @ [custom_fields c]],
                 uuids := uuids (world s) + 1\<rparr>"
proof -
  have g: "(if is_zr c then ''ZR-Kunden'' else ''User-Kunden'') = group_of c" by (cases c) simp_all
  have u: "fresh_uuid (shop merge) t = (fst (shop_uuid4 (world t)), t\<lparr>world := snd (shop_uuid4 (world t))\<rparr>)" for t
    by (simp add: fresh_uuid_def shop_def split: prod.splits)
  show ?thesis using assms
    unfolding create_customer_generic_def g
    by (simp add: get_customer_group_id_shop get_country_id_shop create_customer_data_payload
        salutation_id_def sales_channel_id_def u)
       (simp add: send_def shop_def shop_http_def shop_uuid4_def)
qed

lemma create_customer_generic_shop_fails:
  assumes "\<not> truthy (group_id_of (world s) (group_of c))"
  shows "(\<exists>e. fst (create_customer_generic (shop merge) c (is_zr c) s) = Inl e) \<and>
         world (snd (create_customer_generic (shop merge) c (is_zr c) s)) = world s \<and>
         only_sends (\<lambda>q. \<not> is_create q) s
           (snd (create_customer_generic (shop merge) c (is_zr c) s))"
proof -
  have g: "(if is_zr c then ''ZR-Kunden'' else ''User-Kunden'') = group_of c" by (cases c) simp_all
  show ?thesis using assms
    unfolding create_customer_generic_def g
    by (simp add: get_customer_group_id_shop get_country_id_shop only_sends_def is_create_def)
qed

text \<open>The steps of the two loops against the destination.\<close>

lemma first_match_Some:
  "first_match P xs = Some i \<Longrightarrow> i < length xs \<and> P (xs ! i) \<and> (\<forall>j<i. \<not> P (xs ! j))"
proof (induction xs arbitrary: i)
  case Nil
  then show ?case by simp
next
  case (Cons x xs)
  show ?case
  proof (cases "P x")
    case True
    with Cons.prems show ?thesis by simp
  next
    case False
    with Cons.prems obtain k where k: "first_match P xs = Some k" "i = Suc k" by auto
    from Cons.IH [OF k(1)] False k(2) show ?thesis
      by (auto simp: nth_Cons split: nat.splits)
  qed
qed

lemma first_match_None: "first_match P xs = None \<longleftrightarrow> (\<forall>j<length xs. \<not> P (xs ! j))"
proof (induction xs)
  case Nil
  then show ?case by simp
next
  case (Cons x xs)
  show ?case
  proof (cases "P x")
    case True
    then show ?thesis by auto
  next
    case False
    have "(\<forall>j<length (x # xs). \<not> P ((x # xs) ! j)) \<longleftrightarrow> (\<forall>j<length xs. \<not> P (xs ! j))"
      using False by (auto simp: nth_Cons split: nat.splits)
    with Cons.IH False show ?thesis by simp
  qed
qed

lemma first_match_eqI:
  assumes "i < length xs" "P (xs ! i)" "\<forall>j<i. \<not> P (xs ! j)"
  shows "first_match P xs = Some i"
proof (cases "first_match P xs")
  case None
  with assms show ?thesis by (simp add: first_match_None)
next
  case (Some k)
  from first_match_Some [OF Some] assms have "\<not> k < i" "\<not> i < k" by auto
  with Some show ?thesis by simp
qed

lemma only_sends_refl [simp]: "only_sends P s s"
  by (simp add: only_sends_def)

lemma only_sends_trans: "only_sends P s s' \<Longrightarrow> only_sends P s' s'' \<Longrightarrow> only_sends P s s''"
  by (auto simp: only_sends_def)

lemma only_sends_log [simp]:
  "only_sends P s (log_info m s') = only_sends P s s'"
  "only_sends P s (log_error m s') = only_sends P s s'"
  by (simp_all add: only_sends_def)

lemma only_sends_issued: "only_sends P s s' \<Longrightarrow> \<forall>q\<in>set (issued s s'). P q"
  by (auto simp: only_sends_def issued_def)

lemma only_sends_one: "sent s' = sent s @ [q] \<Longrightarrow> P q \<Longrightarrow> only_sends P s s'"
  by (simp add: only_sends_def)

lemma not_create_lookup [simp]:
  "\<not> is_create (lookup_entraid i)" "\<not> is_create (lookup_number n)" "\<not> is_create zr_fetch"
  by (simp_all add: is_create_def lookup_entraid_def lookup_number_def zr_fetch_def)

lemma update_never_creates:
  "only_sends (\<lambda>q. \<not> is_create q) s (snd (update_customer_generic env c z ex s))"
proof -
  obtain r s' where u: "update_customer_generic env c z ex s = (r, s')" by (metis prod.exhaust)
  from update_customer_generic_issued [OF u] show ?thesis
    by (auto simp: only_sends_def u is_create_def)
qed

lemma found_truthy:
  "truthy (found w p) \<longleftrightarrow> first_match (matches p) (customers w) \<noteq> None"
  by (simp add: found_def customer_entity_def split: option.splits)

lemma sync_user_shop:
  "world (snd (sync_user (shop merge) u (cs, s))) = wstep (User u) (world s) \<and>
   (\<not> creates (User u) (world s) \<longrightarrow>
      only_sends (\<lambda>q. \<not> is_create q) s (snd (sync_user (shop merge) u (cs, s))))"
proof -
  obtain up cr fa where cs: "cs = (up, cr, fa)" by (cases cs)
  let ?p = "(''filter[customFields.custom_identifier_user_entraid_]'', entraID u)"
  let ?s1 = "s\<lparr>sent := sent s @ [lookup_entraid (entraID u)]\<rparr>"
  have s1: "only_sends (\<lambda>q. \<not> is_create q) s ?s1" by (simp add: only_sends_def)
  show ?thesis
  proof (cases "first_match (matches ?p) (customers (world s))")
    case None
    then have f: "found (world s) ?p = JNull" by (simp add: found_def)
    let ?c = "create_customer_generic (shop merge) (User u) False ?s1"
    have step: "sync_user (shop merge) u (cs, s) =
        (case ?c of
           (Inl e, s2) \<Rightarrow> ((up, cr, fa + 1), log_error (Failed_to_process_user (eMailadresse u) e) s2)
         | (Inr r, s2) \<Rightarrow> ((up, cr + 1, fa), log_info (Created_new_user (eMailadresse u)) s2))"
      by (simp add: cs get_customer_by_custom_field_entraid_shop f create_customer_def)
    show ?thesis
    proof (cases "truthy (group_id_of (world s) ''User-Kunden'')")
      case True
      with create_customer_generic_shop [of ?s1 "User u"] None show ?thesis
        by (auto simp: step wstep_def creates_def split: prod.splits sum.splits)
    next
      case False
      with create_customer_generic_shop_fails [of ?s1 "User u"]
      have "world (snd ?c) = world s" "only_sends (\<lambda>q. \<not> is_create q) ?s1 (snd ?c)"
        by simp_all
      with s1 have "world (snd ?c) = world s" "only_sends (\<lambda>q. \<not> is_create q) s (snd ?c)"
        by (auto intro: only_sends_trans)
      with None False show ?thesis
        by (auto simp: step wstep_def split: prod.splits sum.splits)
    qed
  next
    case (Some i)
    then have f: "found (world s) ?p = customer_entity (i, customers (world s) ! i)"
      by (simp add: found_def)
    have t: "truthy (customer_entity (i, customers (world s) ! i))"
      by (simp add: customer_entity_def)
    from first_match_Some [OF Some] have i: "i < length (customers (world ?s1))" by simp
    let ?c = "update_customer_generic (shop merge) (User u) False
                (customer_entity (i, customers (world s) ! i)) ?s1"
    have step: "sync_user (shop merge) u (cs, s) =
        (case ?c of
           (Inl e, s2) \<Rightarrow> ((up, cr, fa + 1), log_error (Failed_to_process_user (eMailadresse u) e) s2)
         | (Inr r, s2) \<Rightarrow> ((up + 1, cr, fa), log_info (Updated_existing_user (eMailadresse u)) s2))"
      by (simp add: cs get_customer_by_custom_field_entraid_shop f t update_customer_def)
    from update_customer_generic_shop [OF i, of "User u"]
    have w: "world (snd ?c) = wstep (User u) (world s)"
      by (simp add: wstep_def Some)
    from update_never_creates [of ?s1 "shop merge" "User u" False] s1
    have "only_sends (\<lambda>q. \<not> is_create q) s (snd ?c)"
      by (auto intro: only_sends_trans)
    with w show ?thesis
      by (auto simp: step split: prod.splits sum.splits)
  qed
qed

lemma sync_zr_contact_shop:
  "world (snd (sync_zr_contact (shop merge) z (cs, s))) = wstep (Zr z) (world s) \<and>
   (\<not> creates (Zr z) (world s) \<longrightarrow>
      only_sends (\<lambda>q. \<not> is_create q) s (snd (sync_zr_contact (shop merge) z (cs, s))))"
proof -
  obtain up cr fa where cs: "cs = (up, cr, fa)" by (cases cs)
  let ?p = "(''filter[customerNumber]'', zrNummer z)"
  let ?s1 = "s\<lparr>sent := sent s @ [lookup_number (zrNummer z)]\<rparr>"
  have s1: "only_sends (\<lambda>q. \<not> is_create q) s ?s1" by (simp add: only_sends_def)
  show ?thesis
  proof (cases "first_match (matches ?p) (customers (world s))")
    case None
    then have f: "found (world s) ?p = JNull" by (simp add: found_def)
    let ?c = "create_customer_generic (shop merge) (Zr z) True ?s1"
    have step: "sync_zr_contact (shop merge) z (cs, s) =
        (case ?c of
           (Inl e, s2) \<Rightarrow> ((up, cr, fa + 1), log_error (Failed_to_process_ZR_customer (zrNummer z) e) s2)
         | (Inr r, s2) \<Rightarrow> ((up, cr + 1, fa), log_info (Created_new_ZR_customer (zrNummer z)) s2))"
      by (simp add: cs get_customer_by_customer_number_shop f create_zr_customer_def)
    show ?thesis
    proof (cases "truthy (group_id_of (world s) ''ZR-Kunden'')")
      case True
      with create_customer_generic_shop [of ?s1 "Zr z"] None show ?thesis
        by (auto simp: step wstep_def creates_def split: prod.splits sum.splits)
    next
      case False
      with create_customer_generic_shop_fails [of ?s1 "Zr z"]
      have "world (snd ?c) = world s" "only_sends (\<lambda>q. \<not> is_create q) ?s1 (snd ?c)"
        by simp_all
      with s1 have "world (snd ?c) = world s" "only_sends (\<lambda>q. \<not> is_create q) s (snd ?c)"
        by (auto intro: only_sends_trans)
      with None False show ?thesis
        by (auto simp: step wstep_def split: prod.splits sum.splits)
    qed
  next
    case (Some i)
    then have f: "found (world s) ?p = customer_entity (i, customers (world s) ! i)"
      by (simp add: found_def)
    have t: "truthy (customer_entity (i, customers (world s) ! i))"
      by (simp add: customer_entity_def)
    from first_match_Some [OF Some] have i: "i < length (customers (world ?s1))" by simp
    let ?c = "update_customer_generic (shop merge) (Zr z) True
                (customer_entity (i, customers (world s) ! i)) ?s1"
    have step: "sync_zr_contact (shop merge) z (cs, s) =
        (case ?c of
           (Inl e, s2) \<Rightarrow> ((up, cr, fa + 1), log_error (Failed_to_process_ZR_customer (zrNummer z) e) s2)
         | (Inr r, s2) \<Rightarrow> ((up + 1, cr, fa), log_info (Updated_existing_ZR_customer (zrNummer z)) s2))"
      by (simp add: cs get_customer_by_customer_number_shop f t update_zr_customer_def)
    from update_customer_generic_shop [OF i, of "Zr z"]
    have w: "world (snd ?c) = wstep (Zr z) (world s)"
      by (simp add: wstep_def Some)
    from update_never_creates [of ?s1 "shop merge" "Zr z" True] s1
    have "only_sends (\<lambda>q. \<not> is_create q) s (snd ?c)"
      by (auto intro: only_sends_trans)
    with w show ?thesis
      by (auto simp: step split: prod.splits sum.splits)
  qed
qed

text \<open>The loops and the passes against the destination.\<close>

lemma wstep_frame [simp]:
  "contact_list (wstep c w) = contact_list w"
  "zr_contact_list (wstep c w) = zr_contact_list w"
  "customer_groups (wstep c w) = customer_groups w"
  "country_list (wstep c w) = country_list w"
  by (simp_all add: wstep_def split: option.splits)

lemma fold_wstep_frame [simp]:
  "contact_list (fold wstep cs w) = contact_list w"
  "zr_contact_list (fold wstep cs w) = zr_contact_list w"
  "customer_groups (fold wstep cs w) = customer_groups w"
  "country_list (fold wstep cs w) = country_list w"
  by (induction cs arbitrary: w) simp_all

lemma group_id_of_fold [simp]: "group_id_of (fold wstep cs w) n = group_id_of w n"
  by (simp add: group_id_of_def cong: option.case_cong)

lemma country_id_of_fold [simp]: "country_id_of (fold wstep cs w) n = country_id_of w n"
  by (simp add: country_id_of_def)

lemma group_id_of_wstep [simp]: "group_id_of (wstep c w) n = group_id_of w n"
  by (simp add: group_id_of_def cong: option.case_cong)

lemma country_id_of_wstep [simp]: "country_id_of (wstep c w) n = country_id_of w n"
  by (simp add: country_id_of_def)

lemma fetched_fold [simp]:
  "fetched_users (fold wstep cs w) = fetched_users w"
  "fetched_zr (fold wstep cs w) = fetched_zr w"
  by (simp_all add: fetched_users_def fetched_zr_def)

lemma records_fold [simp]: "records (fold wstep cs w) = records w"
  by (simp add: records_def cong: option.case_cong)

lemma only_sends_log_left [simp]:
  "only_sends P (log_info m s) s' = only_sends P s s'"
  "only_sends P (log_error m s) s' = only_sends P s s'"
  by (simp_all add: only_sends_def)

lemma quiet_append: "quiet (xs @ ys) w \<longleftrightarrow> quiet xs w \<and> quiet ys (fold wstep xs w)"
  by (induction xs arbitrary: w) auto

lemma sync_users_loop_shop:
  "world (snd (sync_users_loop (shop merge) us (cs, s))) = fold wstep (map User us) (world s) \<and>
   (quiet (map User us) (world s) \<longrightarrow>
      only_sends (\<lambda>q. \<not> is_create q) s (snd (sync_users_loop (shop merge) us (cs, s))))"
proof (induction us arbitrary: cs s)
  case Nil
  then show ?case by simp
next
  case (Cons u us)
  obtain cs1 s1 where step: "sync_user (shop merge) u (cs, s) = (cs1, s1)" by (metis prod.exhaust)
  from sync_user_shop [of u cs s] step
  have w: "world s1 = wstep (User u) (world s)"
    and q: "\<not> creates (User u) (world s) \<Longrightarrow> only_sends (\<lambda>q. \<not> is_create q) s s1"
    by simp_all
  from Cons.IH [of cs1 s1] w q show ?case
    by (auto simp: step intro: only_sends_trans)
qed

lemma sync_zr_customers_loop_shop:
  "world (snd (sync_zr_customers_loop (shop merge) zs (cs, s))) = fold wstep (map Zr zs) (world s) \<and>
   (quiet (map Zr zs) (world s) \<longrightarrow>
      only_sends (\<lambda>q. \<not> is_create q) s (snd (sync_zr_customers_loop (shop merge) zs (cs, s))))"
proof (induction zs arbitrary: cs s)
  case Nil
  then show ?case by simp
next
  case (Cons z zs)
  obtain cs1 s1 where step: "sync_zr_contact (shop merge) z (cs, s) = (cs1, s1)" by (metis prod.exhaust)
  from sync_zr_contact_shop [of z cs s] step
  have w: "world s1 = wstep (Zr z) (world s)"
    and q: "\<not> creates (Zr z) (world s) \<Longrightarrow> only_sends (\<lambda>q. \<not> is_create q) s s1"
    by simp_all
  from Cons.IH [of cs1 s1] w q show ?case
    by (auto simp: step intro: only_sends_trans)
qed

lemma get_all_contacts_shop:
  "world (snd (get_all_contacts (shop patch) s)) = world s \<and>
   only_sends (\<lambda>q. \<not> is_create q) s (snd (get_all_contacts (shop patch) s)) \<and>
   (case fetched_users (world s) of
      None \<Rightarrow> \<exists>e. fst (get_all_contacts (shop patch) s) = Inl e
    | Some us \<Rightarrow> fst (get_all_contacts (shop patch) s) = Inr us)"
  by (auto simp: get_all_contacts_def fetched_users_def send_def shop_def shop_http_def
      only_sends_def is_create_def split: sum.splits)

lemma get_all_zr_contacts_shop:
  "world (snd (get_all_zr_contacts (shop patch) s)) = world s \<and>
   only_sends (\<lambda>q. \<not> is_create q) s (snd (get_all_zr_contacts (shop patch) s)) \<and>
   (case fetched_zr (world s) of
      None \<Rightarrow> \<exists>e. fst (get_all_zr_contacts (shop patch) s) = Inl e
    | Some zs \<Rightarrow> fst (get_all_zr_contacts (shop patch) s) = Inr zs)"
  by (auto simp: get_all_zr_contacts_def fetched_zr_def send_def shop_def shop_http_def
      only_sends_def is_create_def split: sum.splits)

lemma sync_users_shop:
  "(case fetched_users (world s) of
      None \<Rightarrow> (\<exists>e. fst (sync_users (shop merge) s) = Inl e) \<and>
              world (snd (sync_users (shop merge) s)) = world s \<and>
              only_sends (\<lambda>q. \<not> is_create q) s (snd (sync_users (shop merge) s))
    | Some us \<Rightarrow> (\<exists>r. fst (sync_users (shop merge) s) = Inr r) \<and>
              world (snd (sync_users (shop merge) s)) = fold wstep (map User us) (world s) \<and>
              (quiet (map User us) (world s) \<longrightarrow>
                 only_sends (\<lambda>q. \<not> is_create q) s (snd (sync_users (shop merge) s))))"
proof -
  let ?s0 = "log_info Starting_user_synchronization s"
  obtain x s1 where f: "get_all_contacts (shop merge) ?s0 = (x, s1)" by (metis prod.exhaust)
  from get_all_contacts_shop [of merge ?s0, unfolded f fst_conv snd_conv]
  have w1: "world s1 = world s" and o1: "only_sends (\<lambda>q. \<not> is_create q) s s1"
    and x: "case fetched_users (world s) of None \<Rightarrow> \<exists>e. x = Inl e | Some us \<Rightarrow> x = Inr us"
    by simp_all
  show ?thesis
  proof (cases "fetched_users (world s)")
    case None
    with x obtain e where "x = Inl e" by auto
    with None f w1 o1 show ?thesis by (simp add: sync_users_def)
  next
    case (Some us)
    with x have x: "x = Inr us" by simp
    let ?s2 = "log_info (Processing_users (length us)) s1"
    obtain cs s3 where l: "sync_users_loop (shop merge) us ((0, 0, 0), ?s2) = (cs, s3)"
      by (metis prod.exhaust)
    from sync_users_loop_shop [of us "(0, 0, 0)" ?s2] l w1
    have w3: "world s3 = fold wstep (map User us) (world s)"
      and o3: "quiet (map User us) (world s) \<Longrightarrow> only_sends (\<lambda>q. \<not> is_create q) ?s2 s3"
      by simp_all
    have o: "quiet (map User us) (world s) \<Longrightarrow> only_sends (\<lambda>q. \<not> is_create q) s s3"
      using o1 o3 by (auto intro: only_sends_trans [of _ s "?s2"])
    show ?thesis using Some f x l w3 o
      by (auto simp: sync_users_def split: prod.splits)
  qed
qed

lemma sync_zr_customers_shop:
  "(case fetched_zr (world s) of
      None \<Rightarrow> (\<exists>e. fst (sync_zr_customers (shop merge) s) = Inl e) \<and>
              world (snd (sync_zr_customers (shop merge) s)) = world s \<and>
              only_sends (\<lambda>q. \<not> is_create q) s (snd (sync_zr_customers (shop merge) s))
    | Some zs \<Rightarrow> (\<exists>r. fst (sync_zr_customers (shop merge) s) = Inr r) \<and>
              world (snd (sync_zr_customers (shop merge) s)) = fold wstep (map Zr zs) (world s) \<and>
              (quiet (map Zr zs) (world s) \<longrightarrow>
                 only_sends (\<lambda>q. \<not> is_create q) s (snd (sync_zr_customers (shop merge) s))))"
proof -
  let ?s0 = "log_info Starting_ZR_customer_synchronization s"
  obtain x s1 where f: "get_all_zr_contacts (shop merge) ?s0 = (x, s1)" by (metis prod.exhaust)
  from get_all_zr_contacts_shop [of merge ?s0, unfolded f fst_conv snd_conv]
  have w1: "world s1 = world s" and o1: "only_sends (\<lambda>q. \<not> is_create q) s s1"
    and x: "case fetched_zr (world s) of None \<Rightarrow> \<exists>e. x = Inl e | Some zs \<Rightarrow> x = Inr zs"
    by simp_all
  show ?thesis
  proof (cases "fetched_zr (world s)")
    case None
    with x obtain e where "x = Inl e" by auto
    with None f w1 o1 show ?thesis by (simp add: sync_zr_customers_def)
  next
    case (Some zs)
    with x have x: "x = Inr zs" by simp
    let ?s2 = "log_info (Processing_ZR_contacts (length zs)) s1"
    obtain cs s3 where l: "sync_zr_customers_loop (shop merge) zs ((0, 0, 0), ?s2) = (cs, s3)"
      by (metis prod.exhaust)
    from sync_zr_customers_loop_shop [of zs "(0, 0, 0)" ?s2] l w1
    have w3: "world s3 = fold wstep (map Zr zs) (world s)"
      and o3: "quiet (map Zr zs) (world s) \<Longrightarrow> only_sends (\<lambda>q. \<not> is_create q) ?s2 s3"
      by simp_all
    have o: "quiet (map Zr zs) (world s) \<Longrightarrow> only_sends (\<lambda>q. \<not> is_create q) s s3"
      using o1 o3 by (auto intro: only_sends_trans [of _ s "?s2"])
    show ?thesis using Some f x l w3 o
      by (auto simp: sync_zr_customers_def split: prod.splits)
  qed
qed

text \<open>A whole run against the destination.\<close>

lemma authenticate_shop:
  "(\<exists>tok. fst (authenticate (shop patch) i k s) = Inr tok) \<and>
   world (snd (authenticate (shop patch) i k s)) = world s \<and>
   only_sends (\<lambda>q. \<not> is_create q) s (snd (authenticate (shop patch) i k s))"
  by (simp add: authenticate_def send_def shop_def shop_http_def only_sends_def is_create_def)

lemma run_sync_shop:
  "world (snd (run_sync (shop merge) i k s)) = fold wstep (records (world s)) (world s) \<and>
   (quiet (records (world s)) (world s) \<longrightarrow>
      only_sends (\<lambda>q. \<not> is_create q) s (snd (run_sync (shop merge) i k s)))"
proof -
  let ?P = "\<lambda>q. \<not> is_create q"
  let ?s0 = "log_info Initializing_sync_service s"
  obtain a s1 where au: "authenticate (shop merge) i k ?s0 = (a, s1)" by (metis prod.exhaust)
  from authenticate_shop [of merge i k ?s0, unfolded au fst_conv snd_conv]
  obtain tok where a: "a = Inr tok" and w1: "world s1 = world s" and o1: "only_sends ?P s s1"
    by auto
  obtain x s2 where su: "sync_users (shop merge) s1 = (x, s2)" by (metis prod.exhaust)
  note U = sync_users_shop [of s1, unfolded su fst_conv snd_conv w1]
  show ?thesis
  proof (cases "fetched_users (world s)")
    case None
    with U obtain e where "x = Inl e" "world s2 = world s" "only_sends ?P s1 s2" by auto
    with o1 None show ?thesis
      by (auto simp: run_sync_def au a su records_def intro: only_sends_trans)
  next
    case (Some us)
    with U obtain r where x: "x = Inr r" and w2: "world s2 = fold wstep (map User us) (world s)"
      and o2: "quiet (map User us) (world s) \<Longrightarrow> only_sends ?P s1 s2" by auto
    obtain n e c where r: "r = (n, e, c)" by (cases r)
    let ?s3 = "log_info (Sync_completed_successfully c e) s2"
    obtain y s4 where sz: "sync_zr_customers (shop merge) ?s3 = (y, s4)" by (metis prod.exhaust)
    have run: "run_sync (shop merge) i k s =
        (case y of Inl e \<Rightarrow> (Some 1, log_error (Sync_failed e) s4)
         | Inr (total_zr, existing_zr, created_zr) \<Rightarrow>
             (None, log_info (ZR_Sync_completed_successfully created_zr existing_zr) s4))"
      by (simp add: run_sync_def au a su x r sz)
    have w: "world (snd (run_sync (shop merge) i k s)) = world s4"
      and o: "only_sends ?P s (snd (run_sync (shop merge) i k s)) = only_sends ?P s s4"
      by (auto simp: run split: sum.splits)
    have w3: "world ?s3 = fold wstep (map User us) (world s)" using w2 by simp
    note Z = sync_zr_customers_shop [of ?s3, unfolded sz fst_conv snd_conv w3]
    show ?thesis
    proof (cases "fetched_zr (world s)")
      case None
      with Z have "world s4 = fold wstep (map User us) (world s)" "only_sends ?P s2 s4"
        by simp_all
      with o1 o2 Some None show ?thesis
        by (auto simp: w o records_def intro: only_sends_trans)
    next
      case (Some zs)
      with Z have w4: "world s4 = fold wstep (map Zr zs) (fold wstep (map User us) (world s))"
        and o4: "quiet (map Zr zs) (fold wstep (map User us) (world s)) \<Longrightarrow> only_sends ?P s2 s4"
        by simp_all
      have rec: "records (world s) = map User us @ map Zr zs"
        using \<open>fetched_users (world s) = Some us\<close> Some by (simp add: records_def)
      show ?thesis using w4 o1 o2 o4
        by (auto simp: w o rec quiet_append intro: only_sends_trans)
    qed
  qed
qed

section \<open>A second run\<close>

lemma matches_user_rest:
  "matches (''filter[customFields.custom_identifier_user_entraid_]'', e) x =
   matches (''filter[customFields.custom_identifier_user_entraid_]'', e) (rest_of x)"
  by (simp add: matches_def map_of_rest_of payload_keys_def)

lemma matches_zr_number:
  "matches (''filter[customerNumber]'', n) x \<longleftrightarrow> number_of x = Some (JStr n)"
  by (simp add: matches_def number_of_def)

lemma number_of_payload:
  "number_of (payload c a b d @ r) = Some (JStr (zrNummer (common c)))"
  unfolding number_of_def by (rule payload_number)

lemma matches_cong:
  assumes "rest_of x = rest_of y" and "is_zr c \<Longrightarrow> number_of x = number_of y"
  shows "matches (key_of c) x = matches (key_of c) y"
proof (cases c)
  case (User u)
  with assms(1) matches_user_rest [of "entraID u" x] matches_user_rest [of "entraID u" y]
  show ?thesis by simp
next
  case (Zr z)
  with assms(2) show ?thesis by (simp add: matches_zr_number)
qed

lemma first_match_cong:
  assumes "length xs = length ys" and "\<forall>i<length xs. P (xs ! i) = P (ys ! i)"
  shows "first_match P xs = first_match P ys"
  using assms
proof (induction xs arbitrary: ys)
  case Nil
  then show ?case by simp
next
  case (Cons x xs)
  then obtain y ys' where ys: "ys = y # ys'" by (cases ys) auto
  from Cons.prems ys have "P x = P y" by auto
  moreover from Cons.prems ys have "\<forall>i<length xs. P (xs ! i) = P (ys' ! i)" by auto
  moreover from Cons.prems ys have "length xs = length ys'" by simp
  ultimately show ?case using Cons.IH [of ys'] ys by simp
qed

text \<open>One step and the customers that exist.\<close>

lemma wstep_length: "length (customers w) \<le> length (customers (wstep c w))"
  by (simp add: wstep_def split: option.splits)

lemma wstep_keeps:
  assumes "i < length (customers w)"
  shows "rest_of (customers (wstep c w) ! i) = rest_of (customers w ! i)"
    and "billing_of (customers (wstep c w) ! i) = billing_of (customers w ! i)"
    and "is_zr c \<Longrightarrow> number_of (customers (wstep c w) ! i) = number_of (customers w ! i)"
proof -
  show "rest_of (customers (wstep c w) ! i) = rest_of (customers w ! i)"
    using assms
    by (auto simp: wstep_def merge_payload rest_of_payload nth_list_update nth_append
        dest: first_match_Some split: option.splits)
  show "billing_of (customers (wstep c w) ! i) = billing_of (customers w ! i)"
    using assms
    by (auto simp: wstep_def merge_payload payload_billing nth_list_update nth_append
        dest: first_match_Some split: option.splits)
  show "number_of (customers (wstep c w) ! i) = number_of (customers w ! i)" if "is_zr c"
  proof -
    from that obtain z where c: "c = Zr z" by (cases c) auto
    show ?thesis
    proof (cases "first_match (matches (key_of c)) (customers w)")
      case None
      with assms show ?thesis by (simp add: wstep_def nth_append)
    next
      case (Some t)
      from first_match_Some [OF Some]
      have t: "t < length (customers w)" and "matches (key_of c) (customers w ! t)" by simp_all
      then have "number_of (customers w ! t) = Some (JStr (zrNummer z))"
        by (simp add: c matches_zr_number)
      with Some assms t show ?thesis
        by (auto simp: wstep_def merge_payload nth_list_update number_of_payload c)
    qed
  qed
qed

lemma wstep_new:
  assumes "length (customers w) \<le> i" "i < length (customers (wstep c w))"
  shows "creates c w \<and> i = length (customers w) \<and>
         rest_of (customers (wstep c w) ! i) = [custom_fields c] \<and>
         number_of (customers (wstep c w) ! i) = Some (JStr (zrNummer (common c)))"
proof -
  from assms have n: "first_match (matches (key_of c)) (customers w) = None"
    and g: "truthy (group_id_of w (group_of c))"
    by (auto simp: wstep_def split: option.splits if_splits)
  from assms n g have i: "i = length (customers w)" by (simp add: wstep_def)
  from n g show ?thesis
    by (simp add: i wstep_def creates_def rest_of_payload number_of_payload)
qed

lemma wstep_not_creates: "\<not> creates c w \<Longrightarrow> length (customers (wstep c w)) = length (customers w)"
  by (auto simp: wstep_def creates_def split: option.splits)

text \<open>The rest of a run and the customers that exist.\<close>

lemma fold_wstep_length: "length (customers w) \<le> length (customers (fold wstep cs w))"
proof (induction cs arbitrary: w)
  case Nil
  then show ?case by simp
next
  case (Cons c cs)
  from Cons.IH [of "wstep c w"] wstep_length [of w c] show ?case by simp
qed

lemma fold_wstep_keeps:
  assumes "i < length (customers w)"
  shows "rest_of (customers (fold wstep cs w) ! i) = rest_of (customers w ! i) \<and>
         billing_of (customers (fold wstep cs w) ! i) = billing_of (customers w ! i) \<and>
         ((\<forall>c\<in>set cs. is_zr c) \<longrightarrow>
            number_of (customers (fold wstep cs w) ! i) = number_of (customers w ! i))"
  using assms
proof (induction cs arbitrary: w)
  case Nil
  then show ?case by simp
next
  case (Cons c cs)
  from Cons.prems wstep_length [of w c] have i: "i < length (customers (wstep c w))" by simp
  from Cons.IH [OF i] wstep_keeps [OF Cons.prems, of c] show ?case by simp
qed

lemma fold_wstep_new:
  assumes "length (customers w) \<le> i" "i < length (customers (fold wstep cs w))"
  shows "\<exists>c\<in>set cs. truthy (group_id_of w (group_of c)) \<and>
           rest_of (customers (fold wstep cs w) ! i) = [custom_fields c]"
  using assms
proof (induction cs arbitrary: w)
  case Nil
  then show ?case by simp
next
  case (Cons c cs)
  show ?case
  proof (cases "i < length (customers (wstep c w))")
    case True
    from wstep_new [OF Cons.prems(1) True]
    have c: "creates c w" and r: "rest_of (customers (wstep c w) ! i) = [custom_fields c]"
      by blast+
    from fold_wstep_keeps [OF True, of cs]
    have "rest_of (customers (fold wstep cs (wstep c w)) ! i) = rest_of (customers (wstep c w) ! i)"
      by simp
    with c r show ?thesis by (auto simp: creates_def)
  next
    case False
    then have "length (customers (wstep c w)) \<le> i" by simp
    from Cons.IH [OF this] Cons.prems(2) show ?thesis by auto
  qed
qed

lemma fold_wstep_no_creates:
  assumes "\<forall>c\<in>set cs. \<not> truthy (group_id_of w (group_of c))"
  shows "length (customers (fold wstep cs w)) = length (customers w)"
proof (rule ccontr)
  assume "length (customers (fold wstep cs w)) \<noteq> length (customers w)"
  with fold_wstep_length [of w cs] have "length (customers w) < length (customers (fold wstep cs w))"
    by simp
  from fold_wstep_new [OF order_refl this] assms show False by auto
qed

text \<open>The order of the contacts, and the two ends of a second run.\<close>

lemma zr_only_users_first: "\<forall>c\<in>set cs. is_zr c \<Longrightarrow> users_first cs"
proof (induction cs)
  case Nil
  then show ?case by simp
next
  case (Cons d ds)
  then show ?case by (cases d) auto
qed

lemma users_first_tail: "users_first (c # cs) \<Longrightarrow> users_first cs"
  by (cases c) (auto intro: zr_only_users_first)

lemma users_first_zr: "users_first (c # cs) \<Longrightarrow> is_zr c \<Longrightarrow> \<forall>d\<in>set (c # cs). is_zr d"
  by (cases c) auto

lemma users_first_records: "users_first (map User us @ map Zr zs)"
proof (induction us)
  case Nil
  have "\<forall>c\<in>set (map Zr zs). is_zr c" by auto
  then show ?case by (simp add: zr_only_users_first)
next
  case (Cons u us)
  then show ?case by simp
qed

lemma matches_created: "matches (key_of c) (payload c a b d @ [custom_fields c])"
proof (cases c)
  case (User u)
  have "map_of (payload c a b d @ [custom_fields c]) ''customFields'' = Some (snd (custom_fields c))"
    by (simp add: User payload_def update_customer_data_def)
  then show ?thesis by (simp add: User matches_def)
next
  case (Zr z)
  from number_of_payload [of c a b d "[custom_fields c]"] show ?thesis
    by (simp add: Zr matches_zr_number)
qed

lemma no_user_matches_zr_custom_fields:
  "rest_of x = [custom_fields (Zr z)] \<Longrightarrow> \<not> matches (key_of (User u)) x"
  using matches_user_rest [of "entraID u" x] by (simp add: matches_def)

lemma second_run_at_end: "second_run_at F F b \<Longrightarrow> b = F"
proof -
  assume r: "second_run_at F F b"
  then have "customers b = customers F"
    by (intro nth_equalityI) (auto simp: second_run_at_def)
  with r show ?thesis by (simp add: second_run_at_def)
qed

lemma second_run_at_start: "second_run_at F a F"
  by (simp add: second_run_at_def)

text \<open>
  A step of the second run finds the customer the same step of the first run wrote,
  and writes it the same way; so the second run ends where the first one did.
\<close>

lemma second_run_step:
  assumes uf: "users_first (c # rest)"
    and F: "fold wstep rest (wstep c a) = F"
    and rel: "second_run_at F a b"
  shows "\<not> creates c b \<and> second_run_at F (wstep c a) (wstep c b)"
proof -
  let ?A = "customers a" and ?B = "customers b" and ?F = "customers F"
  let ?m = "matches (key_of c)"
  from F have F': "fold wstep (c # rest) a = F" by simp
  have lenA: "length ?A \<le> length ?F" using fold_wstep_length [of a "c # rest"] F' by simp
  have lenB: "length ?B = length ?F" using rel by (simp add: second_run_at_def)
  have "customer_groups F = customer_groups a" "country_list F = country_list a"
    using F' fold_wstep_frame [of "c # rest" a] by auto
  with rel have fr: "customer_groups b = customer_groups a" "country_list b = country_list a"
    by (simp_all add: second_run_at_def)
  have gid: "group_id_of b n = group_id_of a n" for n by (simp add: group_id_of_def fr cong: option.case_cong)
  have cid: "country_id_of b n = country_id_of a n" for n by (simp add: country_id_of_def fr)
  have relB: "?B ! i = ?F ! i \<or> (i < length ?A \<and> ?B ! i = ?A ! i)" if "i < length ?F" for i
    using rel that by (simp add: second_run_at_def)
  have zr: "\<forall>d\<in>set (c # rest). is_zr d" if "is_zr c" using users_first_zr [OF uf that] .
  have old: "rest_of (?B ! i) = rest_of (?A ! i) \<and> billing_of (?B ! i) = billing_of (?A ! i) \<and>
             (is_zr c \<longrightarrow> number_of (?B ! i) = number_of (?A ! i))" if "i < length ?A" for i
  proof -
    from fold_wstep_keeps [OF that, of "c # rest"] F' zr
    have k: "rest_of (?F ! i) = rest_of (?A ! i)" "billing_of (?F ! i) = billing_of (?A ! i)"
      "is_zr c \<longrightarrow> number_of (?F ! i) = number_of (?A ! i)" by auto
    from that lenA have "i < length ?F" by simp
    from relB [OF this] k show ?thesis by auto
  qed
  have K1: "?m (?B ! i) = ?m (?A ! i)" if "i < length ?A" for i
    using old [OF that] by (intro matches_cong) auto
  show ?thesis
  proof (cases "first_match ?m ?A")
    case (Some t)
    from first_match_Some [OF Some]
    have t: "t < length ?A" and mt: "?m (?A ! t)" and bt: "\<forall>j<t. \<not> ?m (?A ! j)" by auto
    have fmB: "first_match ?m ?B = Some t"
    proof (rule first_match_eqI)
      show "t < length ?B" using t lenA lenB by simp
      show "?m (?B ! t)" using K1 [OF t] mt by simp
      show "\<forall>j<t. \<not> ?m (?B ! j)" using bt t K1 by auto
    qed
    let ?X = "payload c (country_id_of a (land (common c))) (group_id_of a (group_of c))
                (billing_of (?A ! t)) @ rest_of (?A ! t)"
    have wa: "wstep c a = a\<lparr>customers := ?A[t := ?X]\<rparr>"
      by (simp add: wstep_def Some merge_payload)
    have wb: "wstep c b = b\<lparr>customers := ?B[t := ?X]\<rparr>"
      using old [OF t] by (simp add: wstep_def fmB merge_payload gid cid)
    have "second_run_at F (wstep c a) (wstep c b)"
      unfolding second_run_at_def wa wb
    proof (intro conjI allI impI)
      fix i assume i: "i < length ?F"
      show "customers (b\<lparr>customers := ?B[t := ?X]\<rparr>) ! i = ?F ! i \<or>
            (i < length (customers (a\<lparr>customers := ?A[t := ?X]\<rparr>)) \<and>
             customers (b\<lparr>customers := ?B[t := ?X]\<rparr>) ! i =
             customers (a\<lparr>customers := ?A[t := ?X]\<rparr>) ! i)"
      proof (cases "i = t")
        case True
        with t lenA lenB show ?thesis by simp
      next
        case False
        with relB [OF i] show ?thesis by auto
      qed
    qed (use rel in \<open>simp_all add: second_run_at_def\<close>)
    moreover have "\<not> creates c b" by (simp add: creates_def fmB)
    ultimately show ?thesis by simp
  next
    case None
    then have noA: "\<forall>j<length ?A. \<not> ?m (?A ! j)" by (simp add: first_match_None)
    show ?thesis
    proof (cases "truthy (group_id_of a (group_of c))")
      case True
      let ?aid = "JStr (filter (\<lambda>ch. ch \<noteq> CHR ''-'') (fst (shop_uuid4 a)))"
      let ?P = "payload c (country_id_of a (land (common c))) (group_id_of a (group_of c)) ?aid"
      let ?Pc = "?P @ [custom_fields c]"
      let ?n = "length ?A"
      have wa: "wstep c a = a\<lparr>customers := ?A @ [?Pc], uuids := uuids a + 1\<rparr>"
        by (simp add: wstep_def None True)
      have n1: "?n < length (customers (wstep c a))" by (simp add: wa)
      with fold_wstep_length [of "wstep c a" rest] F have nF: "?n < length ?F" by simp
      from relB [OF nF] have Bn: "?B ! ?n = ?F ! ?n" by simp
      from fold_wstep_keeps [OF n1, of rest] F
      have k: "rest_of (?F ! ?n) = [custom_fields c]" "billing_of (?F ! ?n) = ?aid"
        "(\<forall>d\<in>set rest. is_zr d) \<longrightarrow> number_of (?F ! ?n) = number_of ?Pc"
        by (simp_all add: wa rest_of_payload payload_billing)
      have "?m (?F ! ?n) = ?m ?Pc"
      proof (rule matches_cong)
        show "rest_of (?F ! ?n) = rest_of ?Pc" using k(1) by (simp add: rest_of_payload)
        show "number_of (?F ! ?n) = number_of ?Pc" if "is_zr c" using k(3) zr [OF that] by simp
      qed
      then have mF: "?m (?F ! ?n)" by (simp add: matches_created)
      have fmB: "first_match ?m ?B = Some ?n"
      proof (rule first_match_eqI)
        show "?n < length ?B" using nF lenB by simp
        show "?m (?B ! ?n)" using mF Bn by simp
        show "\<forall>j<?n. \<not> ?m (?B ! j)" using noA K1 by auto
      qed
      have wb: "wstep c b = b\<lparr>customers := ?B[?n := ?Pc]\<rparr>"
        using k(1,2) by (simp add: wstep_def fmB merge_payload gid cid Bn)
      have "second_run_at F (wstep c a) (wstep c b)"
        unfolding second_run_at_def wa wb
      proof (intro conjI allI impI)
        fix i assume i: "i < length ?F"
        show "customers (b\<lparr>customers := ?B[?n := ?Pc]\<rparr>) ! i = ?F ! i \<or>
              (i < length (customers (a\<lparr>customers := ?A @ [?Pc], uuids := uuids a + 1\<rparr>)) \<and>
               customers (b\<lparr>customers := ?B[?n := ?Pc]\<rparr>) ! i =
               customers (a\<lparr>customers := ?A @ [?Pc], uuids := uuids a + 1\<rparr>) ! i)"
        proof (cases "i = ?n")
          case True
          with nF lenB show ?thesis by simp
        next
          case False
          with relB [OF i] show ?thesis by (auto simp: nth_append)
        qed
      qed (use rel in \<open>simp_all add: second_run_at_def\<close>)
      moreover have "\<not> creates c b" by (simp add: creates_def fmB)
      ultimately show ?thesis by simp
    next
      case False
      have wa: "wstep c a = a" by (simp add: wstep_def None False)
      with F have Fa: "fold wstep rest a = F" by simp
      have noB: "\<not> ?m (?B ! j)" if j: "j < length ?B" for j
      proof (cases "j < length ?A")
        case True
        with noA K1 show ?thesis by simp
      next
        case f: False
        from j lenB have jF: "j < length ?F" by simp
        from relB [OF jF] f have Bj: "?B ! j = ?F ! j" by simp
        from f jF fold_wstep_new [of a j rest] Fa obtain d where
          d: "d \<in> set rest" "truthy (group_id_of a (group_of d))" "rest_of (?F ! j) = [custom_fields d]"
          by auto
        show ?thesis
        proof (cases c)
          case (User u)
          with d(2) False obtain z where "d = Zr z" by (cases d) auto
          with d(3) have "rest_of (?F ! j) = [custom_fields (Zr z)]" by simp
          from no_user_matches_zr_custom_fields [OF this, of u] show ?thesis
            by (simp add: User Bj)
        next
          case (Zr z)
          with zr d(1) have "is_zr d" by simp
          then obtain z' where "d = Zr z'" by (cases d) auto
          with d(2) False Zr show ?thesis by simp
        qed
      qed
      then have fmB: "first_match ?m ?B = None" by (simp add: first_match_None)
      have wb: "wstep c b = b" using False by (simp add: wstep_def fmB gid)
      have "\<not> creates c b" using False by (simp add: creates_def gid)
      with rel show ?thesis by (simp add: wa wb)
    qed
  qed
qed

lemma second_run:
  "users_first rs \<Longrightarrow> fold wstep rs a = F \<Longrightarrow> second_run_at F a b \<Longrightarrow>
   fold wstep rs b = F \<and> quiet rs b"
proof (induction rs arbitrary: a b)
  case Nil
  then show ?case by (simp add: second_run_at_end)
next
  case (Cons c rs)
  from Cons.prems(2) have F: "fold wstep rs (wstep c a) = F" by simp
  from second_run_step [OF Cons.prems(1) F Cons.prems(3)]
  have q: "\<not> creates c b" and r: "second_run_at F (wstep c a) (wstep c b)" by simp_all
  from Cons.IH [OF users_first_tail [OF Cons.prems(1)] F r] q show ?case by simp
qed

lemma run_twice:
  "users_first rs \<Longrightarrow> fold wstep rs (fold wstep rs w) = fold wstep rs w \<and>
     quiet rs (fold wstep rs w)"
  by (rule second_run [OF _ refl second_run_at_start])

lemma users_first_of_records: "users_first (records w)"
  by (simp add: records_def users_first_records [of _ "[]", simplified] users_first_records
      split: option.splits)

text \<open>
  C3, as the code supports it. Against a destination that stores the payload of a
  create and changes, on an update, the fields the payload has and no other, a
  second run of the synchronization right after the first, with the source data
  unchanged, sends no create request and leaves the destination as the first run
  left it: every customer has the field values it had.
\<close>

theorem second_run_changes_nothing:
  "world (snd (run_sync (shop merge) i k (snd (run_sync (shop merge) i k s))))
     = world (snd (run_sync (shop merge) i k s))
   \<and> (\<forall>q\<in>set (issued (snd (run_sync (shop merge) i k s))
                   (snd (run_sync (shop merge) i k (snd (run_sync (shop merge) i k s))))).
         \<not> (meth q = POST \<and> url q = Shopware_customer))"
proof -
  let ?s1 = "snd (run_sync (shop merge) i k s)"
  let ?rs = "records (world s)"
  let ?F = "fold wstep ?rs (world s)"
  from run_sync_shop [of i k s] have w1: "world ?s1 = ?F" by simp
  then have r1: "records (world ?s1) = ?rs" by simp
  from run_twice [OF users_first_of_records, of "world s"]
  have again: "fold wstep ?rs ?F = ?F" and q: "quiet ?rs ?F" by simp_all
  note R = run_sync_shop [of i k ?s1, unfolded w1 records_fold again]
  from R have w2: "world (snd (run_sync (shop merge) i k ?s1)) = ?F" by (rule conjunct1)
  from R q have "only_sends (\<lambda>q. \<not> is_create q) ?s1 (snd (run_sync (shop merge) i k ?s1))"
    by blast
  from only_sends_issued [OF this] w1 w2 show ?thesis
    unfolding is_create_def by simp
qed

theorem second_run_changes_nothing_witness:
  "length (customers (world (snd (run_sync (shop merge) ''id'' ''key'' (start source_remote))))) = 2
   \<and> customers (world (snd (run_sync (shop merge) ''id'' ''key''
         (snd (run_sync (shop merge) ''id'' ''key'' (start source_remote))))))
       = customers (world (snd (run_sync (shop merge) ''id'' ''key'' (start source_remote))))
   \<and> \<not> (\<exists>q\<in>set (issued (snd (run_sync (shop merge) ''id'' ''key'' (start source_remote)))
                   (snd (run_sync (shop merge) ''id'' ''key''
                      (snd (run_sync (shop merge) ''id'' ''key'' (start source_remote)))))).
           meth q = POST \<and> url q = Shopware_customer)"
proof -
  have "length (customers (world (snd (run_sync (shop merge) ''id'' ''key'' (start source_remote))))) = 2"
    by code_simp
  with second_run_changes_nothing [of "''id''" "''key''" "start source_remote"]
  show ?thesis by simp
qed

text \<open>
  C3, as stated, fails. Against a destination where an update is a full overwrite
  and a field the payload omits is cleared, the first run creates the sample
  individual with the external identity custom field, and the second run, an
  update, clears it, since no update payload has \<open>customFields\<close>: the field values
  after the second run are not those after the first. The lookup of a third run
  then finds no customer, and the individual is created a second time.
\<close>

theorem overwriting_update_clears_custom_fields:
  "map_of (customers (world (snd (run_sync (shop overwrite) ''id'' ''key'' (start source_remote)))) ! 0)
      ''customFields'' = Some (JObj [(''custom_identifier_user_entraid_'', JStr ''entra-1'')])
   \<and> map_of (customers (world (snd (run_sync (shop overwrite) ''id'' ''key''
         (snd (run_sync (shop overwrite) ''id'' ''key'' (start source_remote)))))) ! 0)
      ''customFields'' = None
   \<and> customers (world (snd (run_sync (shop overwrite) ''id'' ''key''
         (snd (run_sync (shop overwrite) ''id'' ''key'' (start source_remote))))))
       \<noteq> customers (world (snd (run_sync (shop overwrite) ''id'' ''key'' (start source_remote))))
   \<and> length (customers (world (snd (run_sync (shop overwrite) ''id'' ''key''
         (snd (run_sync (shop overwrite) ''id'' ''key''
            (snd (run_sync (shop overwrite) ''id'' ''key'' (start source_remote)))))))))
       = 3"
  by code_simp

end
